theory Spec2Isabelle
  imports Complex_Main "HOL-Library.Log_Nat" "HOL-Library.Sublist"
begin

section \<open>Python values\<close>

text \<open>
  The exceptions that the operations of the watermarker raise. All of them are instances
  of Python's \<^verbatim>\<open>Exception\<close>, so \<^verbatim>\<open>except Exception\<close> catches every value of this
  type, while \<^verbatim>\<open>except (FileNotFoundError, AttributeError)\<close> catches two of them.
\<close>

datatype exn =
    FileNotFoundError | AttributeError | PermissionError | IsADirectoryError
  | UnidentifiedImageError | OSError | ValueError | ZeroDivisionError
  | OverflowError | MemoryError

text \<open>
  A Python \<^verbatim>\<open>float\<close> is an IEEE 754 double; a finite one is a rational number, and every
  arithmetic operation returns the exact result rounded to 53 significant bits, to
  nearest with ties to even. \<open>float_round p\<close> is that rounding for \<open>p\<close> significant
  bits, with no bound on the exponent; \<open>float_overflow\<close> below says when a double
  result is an infinity instead (NaN and subnormal numbers are outside the model).
  \<open>float_exponent x\<close> is the integer \<open>e\<close> with \<open>2\<^sup>e \<le> \<bar>x\<bar> < 2\<^sup>e\<^sup>+\<^sup>1\<close>.
\<close>

definition float_exponent :: "rat \<Rightarrow> int" where
  "float_exponent x =
     (let (a, b) = quotient_of \<bar>x\<bar>; k = bitlen a - bitlen b
      in if 2 powi k \<le> \<bar>x\<bar> then k else k - 1)"

definition round_half_even :: "rat \<Rightarrow> int" where
  "round_half_even z =
     (let f = \<lfloor>z\<rfloor>; r = z - of_int f
      in if r < 1 / 2 then f else if 1 / 2 < r then f + 1 else if even f then f else f + 1)"

definition float_round :: "nat \<Rightarrow> rat \<Rightarrow> rat" where
  "float_round p x =
     (if x = 0 then 0
      else let s = 2 powi (float_exponent x - (int p - 1))
           in of_int (round_half_even (x / s)) * s)"

text \<open>
  The exact result \<open>x\<close> of an operation overflows the doubles when its rounding reaches
  \<open>2\<^sup>1\<^sup>0\<^sup>2\<^sup>4\<close>, that is, has an exponent of 1024 or more. Then \<^verbatim>\<open>float(n)\<close> and \<^verbatim>\<open>a / b\<close> on
  ints raise \<^verbatim>\<open>OverflowError\<close>, a product of floats is an infinity, and \<^verbatim>\<open>int\<close> of an
  infinity raises \<^verbatim>\<open>OverflowError\<close>.
\<close>

definition float_overflow :: "rat \<Rightarrow> bool" where
  "float_overflow x \<longleftrightarrow>
     float_round 53 x \<noteq> 0 \<and> 1024 \<le> float_exponent (float_round 53 x)"

text \<open>
  \<^verbatim>\<open>float(n)\<close>, \<^verbatim>\<open>x * y\<close> on floats, \<^verbatim>\<open>a / b\<close> on ints, and \<^verbatim>\<open>int(x)\<close>, which truncates
  toward zero: the values where the operation returns a finite double. \<open>truediv_error\<close>
  is the exception that \<^verbatim>\<open>a / b\<close> raises instead of returning.
\<close>

definition py_float :: "int \<Rightarrow> rat" where
  "py_float n = float_round 53 (of_int n)"

definition float_mul :: "rat \<Rightarrow> rat \<Rightarrow> rat" where
  "float_mul x y = float_round 53 (x * y)"

definition truediv :: "int \<Rightarrow> int \<Rightarrow> rat" where
  "truediv a b = float_round 53 (of_int a / of_int b)"

definition truediv_error :: "int \<Rightarrow> int \<Rightarrow> exn option" where
  "truediv_error a b =
     (if b = 0 then Some ZeroDivisionError
      else if float_overflow (of_int a / of_int b) then Some OverflowError
      else None)"

definition py_int :: "rat \<Rightarrow> int" where
  "py_int x = (if 0 \<le> x then \<lfloor>x\<rfloor> else \<lceil>x\<rceil>)"

text \<open>The first exception of a sequence of steps, each of which raises or does not.\<close>

fun first_error :: "exn option list \<Rightarrow> exn option" where
  "first_error [] = None"
| "first_error (Some e # rest) = Some e"
| "first_error (None # rest) = first_error rest"

text \<open>The truth value of an \<^verbatim>\<open>Optional[str]\<close>: \<^verbatim>\<open>None\<close> and the empty string are false.\<close>

definition truthy :: "string option \<Rightarrow> bool" where
  "truthy r = (case r of None \<Rightarrow> False | Some s \<Rightarrow> s \<noteq> [])"

definition dict_get :: "('k \<rightharpoonup> 'v) \<Rightarrow> 'k \<Rightarrow> 'v \<Rightarrow> 'v" where
  "dict_get d k dflt = (case d k of Some v \<Rightarrow> v | None \<Rightarrow> dflt)"

subsection \<open>Strings and paths\<close>

text \<open>\<^verbatim>\<open>str.lower\<close> on the characters a \<open>char\<close> holds (code points 0 to 255).\<close>

definition lower_char :: "char \<Rightarrow> char" where
  "lower_char c =
     (let n = (of_char c :: nat)
      in if (65 \<le> n \<and> n \<le> 90) \<or> (192 \<le> n \<and> n \<le> 222 \<and> n \<noteq> 215)
         then char_of (n + 32) else c)"

definition lower :: "string \<Rightarrow> string" where
  "lower s = map lower_char s"

text \<open>\<^verbatim>\<open>p.rfind(c)\<close>: the index of the last occurrence, or -1.\<close>

definition rfind :: "string \<Rightarrow> char \<Rightarrow> int" where
  "rfind p c =
     (if c \<in> set p then int (length p) - 1 - int (length (takeWhile (\<lambda>x. x \<noteq> c) (rev p)))
      else - 1)"

text \<open>
  \<^verbatim>\<open>os.path.splitext\<close> (posixpath): the extension starts at the last dot of the last
  path component, unless only dots precede it there. \<open>skip_dots\<close> is the loop that skips
  the leading dots.
\<close>

function skip_dots :: "string \<Rightarrow> int \<Rightarrow> int \<Rightarrow> string \<times> string" where
  "skip_dots p filenameIndex dotIndex =
     (if filenameIndex < dotIndex
      then (if take 1 (drop (nat filenameIndex) p) \<noteq> ''.''
            then (take (nat dotIndex) p, drop (nat dotIndex) p)
            else skip_dots p (filenameIndex + 1) dotIndex)
      else (p, []))"
  by pat_completeness auto
termination
  by (relation "measure (\<lambda>(p, f, d). nat (d - f))") auto

definition splitext :: "string \<Rightarrow> string \<times> string" where
  "splitext p =
     (let sepIndex = rfind p CHR ''/''; dotIndex = rfind p CHR ''.''
      in if dotIndex > sepIndex then skip_dots p (sepIndex + 1) dotIndex else (p, []))"

text \<open>\<^verbatim>\<open>os.path.join(a, b)\<close> (posixpath) for two components.\<close>

definition path_join :: "string \<Rightarrow> string \<Rightarrow> string" where
  "path_join a b =
     (if take 1 b = ''/'' then b
      else if a = [] \<or> last a = CHR ''/'' then a @ b
      else a @ ''/'' @ b)"

section \<open>Images, the object store and the file system\<close>

text \<open>
  A PIL image object as far as the watermarker reads it: the mode string, the size, and
  the raster, kept as the colour bands and the alpha band of every pixel coordinate
  (the alpha band is what \<^verbatim>\<open>split()[3]\<close> reads and \<^verbatim>\<open>putalpha\<close> writes in mode RGBA).
\<close>

type_synonym point = "int \<times> int"

type_synonym raster = "(point \<Rightarrow> nat list) \<times> (point \<Rightarrow> nat)"

record image =
  mode :: string
  width :: int
  height :: int
  bands :: "point \<Rightarrow> nat list"
  alpha :: "point \<Rightarrow> nat"

definition im_size :: "image \<Rightarrow> int \<times> int" where
  "im_size im = (width im, height im)"

definition set_raster :: "image \<Rightarrow> raster \<Rightarrow> image" where
  "set_raster im r = im\<lparr>bands := fst r, alpha := snd r\<rparr>"

text \<open>
  \<^verbatim>\<open>Image.open\<close> reads the header of a file and PIL decodes the pixels when they are first
  needed. A file decodes to an image; or its header gives a mode and a size and the
  decoding raises; or \<^verbatim>\<open>Image.open\<close> itself raises. A path with no file raises
  \<^verbatim>\<open>FileNotFoundError\<close>.
\<close>

datatype file_content = ImageFile image | Undecodable image exn | Unreadable exn

datatype level = INFO | WARNING | ERROR

datatype message =
    WatermarkLoaded "int \<times> int" string
  | LogoNotFound
  | Processing string "int \<times> int" string
  | SuccessfullyProcessed string
  | ErrorProcessing string exn

text \<open>
  Python objects are shared by reference and PIL mutates some of them in place, so the
  image objects live in a store: a reference is an index into \<open>heap\<close>, and a new object
  is appended. The world also holds the files, the records written by \<^verbatim>\<open>logging\<close>, and
  for an object opened from a file that does not decode, the exception that loading
  its pixels raises.
\<close>

record world =
  heap :: "image list"
  files :: "string \<rightharpoonup> file_content"
  logged :: "(level \<times> message) list"
  decode_error :: "nat \<rightharpoonup> exn"

datatype font = TrueType string nat | DefaultFont

text \<open>
  What the code leaves to PIL's pixel arithmetic and to the operating system: the order
  in which a directory is listed, whether a save fails, whether a font file is found,
  whether the memory for another image of a given size is missing (given the images in
  the store), and the rasters computed by colour conversion, Lanczos resampling,
  pasting (with an optional mask) and text drawing.
\<close>

record platform =
  listdir :: "(string \<rightharpoonup> file_content) \<Rightarrow> string \<Rightarrow> exn + string list"
  save_error :: "(string \<rightharpoonup> file_content) \<Rightarrow> string \<Rightarrow> image \<Rightarrow> exn option"
  font_found :: "string \<Rightarrow> bool"
  out_of_memory :: "image list \<Rightarrow> int \<times> int \<Rightarrow> bool"
  convert_raster :: "image \<Rightarrow> string \<Rightarrow> raster"
  resample :: "image \<Rightarrow> int \<times> int \<Rightarrow> raster"
  paste_raster :: "image \<Rightarrow> image \<Rightarrow> point \<Rightarrow> image option \<Rightarrow> raster"
  text_raster :: "image \<Rightarrow> point \<Rightarrow> string \<Rightarrow> font \<Rightarrow> nat \<times> nat \<times> nat \<times> nat \<Rightarrow> raster"

definition log_record :: "level \<Rightarrow> message \<Rightarrow> world \<Rightarrow> world" where
  "log_record l m w = w\<lparr>logged := logged w @ [(l, m)]\<rparr>"

definition alloc :: "image \<Rightarrow> world \<Rightarrow> nat \<times> world" where
  "alloc im w = (length (heap w), w\<lparr>heap := heap w @ [im]\<rparr>)"

subsection \<open>The PIL operations the watermarker calls\<close>

text \<open>
  The PIL calls that allocate or decode can raise. For \<^verbatim>\<open>convert\<close>, \<^verbatim>\<open>new\<close>, \<^verbatim>\<open>split\<close> and
  \<^verbatim>\<open>paste\<close> the model has two parts: what the call does when it returns
  (\<open>image_convert\<close>, \<open>image_new\<close>, \<open>paste\<close>), and the exception it raises instead, if any
  (\<open>load_error\<close> for the image it reads, \<open>image_new_error\<close> for the image it creates,
  \<open>image_convert_error\<close> for both).
\<close>

text \<open>
  \<^verbatim>\<open>Image.open(path)\<close> returns a new image object; the pixels of a file that does not
  decode are still to be loaded, and loading them will raise.
\<close>

definition image_open :: "string \<Rightarrow> world \<Rightarrow> (exn + nat) \<times> world" where
  "image_open path w =
     (case files w path of
        None \<Rightarrow> (Inl FileNotFoundError, w)
      | Some (Unreadable e) \<Rightarrow> (Inl e, w)
      | Some (ImageFile im) \<Rightarrow> (let (r, w') = alloc im w in (Inr r, w'))
      | Some (Undecodable im e) \<Rightarrow>
          (let (r, w') = alloc im w
           in (Inr r, w'\<lparr>decode_error := (decode_error w')(r \<mapsto> e)\<rparr>)))"

text \<open>\<^verbatim>\<open>im.load()\<close>, which every call that reads the pixels of \<open>im\<close> makes first.\<close>

definition load_error :: "nat \<Rightarrow> world \<Rightarrow> exn option" where
  "load_error r w = decode_error w r"

text \<open>\<^verbatim>\<open>Image.new(mode, size, color)\<close>: a new object filled with one colour.\<close>

definition image_new :: "string \<Rightarrow> int \<times> int \<Rightarrow> nat list \<times> nat \<Rightarrow> world \<Rightarrow> nat \<times> world" where
  "image_new m sz color w =
     alloc \<lparr>mode = m, width = fst sz, height = snd sz,
            bands = (\<lambda>_. fst color), alpha = (\<lambda>_. snd color)\<rparr> w"

definition image_new_error :: "platform \<Rightarrow> int \<times> int \<Rightarrow> world \<Rightarrow> exn option" where
  "image_new_error E sz w = (if out_of_memory E (heap w) sz then Some MemoryError else None)"

text \<open>\<^verbatim>\<open>im.convert(mode)\<close> returns a new object of that mode and the same size.\<close>

definition image_convert :: "platform \<Rightarrow> nat \<Rightarrow> string \<Rightarrow> world \<Rightarrow> nat \<times> world" where
  "image_convert E r m w =
     (let im = heap w ! r
      in alloc (set_raster (im\<lparr>mode := m\<rparr>) (convert_raster E im m)) w)"

definition image_convert_error :: "platform \<Rightarrow> nat \<Rightarrow> world \<Rightarrow> exn option" where
  "image_convert_error E r w =
     first_error [load_error r w, image_new_error E (im_size (heap w ! r)) w]"

text \<open>
  \<^verbatim>\<open>im.resize(size, Image.LANCZOS)\<close> loads the image; returns a copy when the size is
  unchanged; otherwise raises \<^verbatim>\<open>OverflowError\<close> for a dimension that is no C int, and
  \<^verbatim>\<open>ValueError\<close> ("height and width must be > 0") for one below 1; otherwise it returns a
  new object of the same mode with the resampled raster. It raises \<^verbatim>\<open>MemoryError\<close> when
  the memory for the result is missing.
\<close>

definition c_int :: "int \<Rightarrow> bool" where
  "c_int n \<longleftrightarrow> - (2 ^ 31) \<le> n \<and> n < 2 ^ 31"

definition image_resize :: "platform \<Rightarrow> nat \<Rightarrow> int \<times> int \<Rightarrow> world \<Rightarrow> (exn + nat) \<times> world" where
  "image_resize E r sz w =
     (let im = heap w ! r
      in case load_error r w of
           Some e \<Rightarrow> (Inl e, w)
         | None \<Rightarrow>
             if im_size im = sz
             then (case image_new_error E sz w of
                     Some e \<Rightarrow> (Inl e, w)
                   | None \<Rightarrow> (let (r', w') = alloc im w in (Inr r', w')))
             else if \<not> c_int (fst sz) \<or> \<not> c_int (snd sz) then (Inl OverflowError, w)
             else if fst sz < 1 \<or> snd sz < 1 then (Inl ValueError, w)
             else (case image_new_error E sz w of
                     Some e \<Rightarrow> (Inl e, w)
                   | None \<Rightarrow>
                       (let (r', w') = alloc (set_raster (im\<lparr>width := fst sz, height := snd sz\<rparr>)
                                                 (resample E im sz)) w
                        in (Inr r', w'))))"

text \<open>\<^verbatim>\<open>im.putalpha(band)\<close> replaces the alpha band of the object itself.\<close>

definition putalpha :: "nat \<Rightarrow> (point \<Rightarrow> nat) \<Rightarrow> world \<Rightarrow> world" where
  "putalpha r a w = w\<lparr>heap := (heap w)[r := (heap w ! r)\<lparr>alpha := a\<rparr>]\<rparr>"

text \<open>\<^verbatim>\<open>dst.paste(src, box, mask)\<close> rewrites the raster of \<open>dst\<close> itself and reads the others.\<close>

definition paste :: "platform \<Rightarrow> nat \<Rightarrow> nat \<Rightarrow> point \<Rightarrow> nat option \<Rightarrow> world \<Rightarrow> world" where
  "paste E dst src box msk w =
     w\<lparr>heap := (heap w)[dst := set_raster (heap w ! dst)
         (paste_raster E (heap w ! dst) (heap w ! src) box (map_option (\<lambda>m. heap w ! m) msk))]\<rparr>"

text \<open>\<^verbatim>\<open>ImageDraw.Draw(im).text(xy, text, font=font, fill=fill)\<close> draws on the object itself.\<close>

definition draw_text :: "platform \<Rightarrow> nat \<Rightarrow> point \<Rightarrow> string \<Rightarrow> font \<Rightarrow> nat \<times> nat \<times> nat \<times> nat \<Rightarrow> world \<Rightarrow> world" where
  "draw_text E r xy txt fnt fill w =
     w\<lparr>heap := (heap w)[r := set_raster (heap w ! r) (text_raster E (heap w ! r) xy txt fnt fill)]\<rparr>"

text \<open>\<^verbatim>\<open>ImageFont.truetype(name, size)\<close> raises \<^verbatim>\<open>OSError\<close> when the font file is not found.\<close>

definition truetype :: "platform \<Rightarrow> string \<Rightarrow> nat \<Rightarrow> exn + font" where
  "truetype E name sz = (if font_found E name then Inr (TrueType name sz) else Inl OSError)"

text \<open>
  \<^verbatim>\<open>im.save(path, quality=95)\<close> writes the file, or raises and writes nothing. The codecs
  are idealised: a written file decodes to the image that was saved.
\<close>

definition image_save :: "platform \<Rightarrow> nat \<Rightarrow> string \<Rightarrow> world \<Rightarrow> exn option \<times> world" where
  "image_save E r path w =
     (case save_error E (files w) path (heap w ! r) of
        Some e \<Rightarrow> (Some e, w)
      | None \<Rightarrow> (None, w\<lparr>files := (files w)(path \<mapsto> ImageFile (heap w ! r))\<rparr>))"

text \<open>
  \<^verbatim>\<open>ImageEnhance.Brightness(band).enhance(factor)\<close> is \<^verbatim>\<open>Image.blend\<close> of a black band with
  the band: PIL computes \<^verbatim>\<open>0 + factor * (v - 0)\<close> per pixel in single precision (24
  significant bits), clips it to 0..255 and truncates it to a byte.
\<close>

definition blend_black :: "rat \<Rightarrow> nat \<Rightarrow> nat" where
  "blend_black factor v =
     (let temp = float_round 24 (float_round 24 factor * of_nat v)
      in if temp \<le> 0 then 0 else if 255 \<le> temp then 255 else nat \<lfloor>temp\<rfloor>)"

definition brightness_enhance :: "(point \<Rightarrow> nat) \<Rightarrow> rat \<Rightarrow> (point \<Rightarrow> nat)" where
  "brightness_enhance band factor = (\<lambda>p. blend_black factor (band p))"

section \<open>The watermarker\<close>

text \<open>The fields of \<^verbatim>\<open>ImageWatermarker\<close>; \<open>watermark_img\<close> is a reference into the store.\<close>

record watermarker =
  input_dir :: string
  output_dir :: string
  logo_path :: "string option"
  watermark_text :: string
  watermark_img :: nat

text \<open>
  \<^verbatim>\<open>_load_watermark\<close>. The \<^verbatim>\<open>try\<close> block returns the opened logo, raises, or is left
  without a return when no logo path is set; the handler catches two exception classes
  and logs a warning; the code after it builds the text watermark.
\<close>

definition text_watermark :: "platform \<Rightarrow> watermarker \<Rightarrow> world \<Rightarrow> nat \<times> world" where
  "text_watermark E self w =
     (let (watermark, w) = image_new ''RGBA'' (150, 50) ([255, 255, 255], 0) w;
          fnt = (case truetype E ''arial.ttf'' 24 of Inr f \<Rightarrow> f | Inl OSError \<Rightarrow> DefaultFont);
          w = draw_text E watermark (10, 10) (watermark_text self) fnt (0, 0, 0, 128) w
      in (watermark, w))"

definition load_watermark :: "platform \<Rightarrow> watermarker \<Rightarrow> world \<Rightarrow> (exn + nat) \<times> world" where
  "load_watermark E self w =
     (if truthy (logo_path self)
      then (case image_open (the (logo_path self)) w of
              (Inr watermark, w) \<Rightarrow>
                (Inr watermark,
                 log_record INFO (WatermarkLoaded (im_size (heap w ! watermark))
                                                  (mode (heap w ! watermark))) w)
            | (Inl e, w) \<Rightarrow>
                if e = FileNotFoundError \<or> e = AttributeError
                then (let (watermark, w) = text_watermark E self (log_record WARNING LogoNotFound w)
                      in (Inr watermark, w))
                else (Inl e, w))
      else (let (watermark, w) = text_watermark E self w in (Inr watermark, w)))"

text \<open>
  \<^verbatim>\<open>resize_watermark\<close>: both \<^verbatim>\<open>int(...)\<close> truncate a double. Each of the two lines raises
  \<^verbatim>\<open>OverflowError\<close> when the int does not convert to a double or the product is an
  infinity, and the division raises as \<open>truediv_error\<close> says. (\<open>scale\<close> is a finite
  double.)
\<close>

definition resize_watermark :: "platform \<Rightarrow> nat \<Rightarrow> nat \<Rightarrow> rat \<Rightarrow> world \<Rightarrow> (exn + nat) \<times> world" where
  "resize_watermark E watermark base_image scale w =
     (if float_overflow (of_int (width (heap w ! base_image)))
         \<or> float_overflow (py_float (width (heap w ! base_image)) * scale)
      then (Inl OverflowError, w)
      else
       (let new_width = py_int (float_mul (py_float (width (heap w ! base_image))) scale)
        in case truediv_error new_width (width (heap w ! watermark)) of
             Some e \<Rightarrow> (Inl e, w)
           | None \<Rightarrow>
               if float_overflow (of_int (height (heap w ! watermark)))
                  \<or> float_overflow (py_float (height (heap w ! watermark))
                                      * truediv new_width (width (heap w ! watermark)))
               then (Inl OverflowError, w)
               else
                (let new_height = py_int (float_mul (py_float (height (heap w ! watermark)))
                                           (truediv new_width (width (heap w ! watermark))))
                 in image_resize E watermark (new_width, new_height) w)))"

text \<open>
  \<^verbatim>\<open>calculate_position\<close>: the dictionary of the five placements is built first, then
  looked up with \<^verbatim>\<open>positions.get(position, positions['top-right'])\<close>. Python's \<^verbatim>\<open>//\<close> is
  floor division, which is \<open>div\<close> on \<open>int\<close>.
\<close>

definition positions :: "image \<Rightarrow> image \<Rightarrow> int \<Rightarrow> (string \<rightharpoonup> int \<times> int)" where
  "positions base watermark padding =
     [''top-left'' \<mapsto> (padding, padding),
      ''top-right'' \<mapsto> (width base - width watermark - padding, padding),
      ''bottom-left'' \<mapsto> (padding, height base - height watermark - padding),
      ''bottom-right'' \<mapsto> (width base - width watermark - padding,
                          height base - height watermark - padding),
      ''center'' \<mapsto> ((width base - width watermark) div 2,
                    (height base - height watermark) div 2)]"

definition calculate_position :: "image \<Rightarrow> image \<Rightarrow> string \<Rightarrow> int \<Rightarrow> int \<times> int" where
  "calculate_position base watermark position padding =
     (let ps = positions base watermark padding
      in case ps ''top-right'' of
           Some top_right \<Rightarrow> dict_get ps position top_right)"

text \<open>
  \<^verbatim>\<open>add_watermark\<close>. \<open>adjust_transparency\<close> is its first half (the conversion and the
  lines under "Adjust transparency"); it returns the reference that the name
  \<^verbatim>\<open>watermark\<close> is bound to afterwards. \<open>add_watermark\<close> is what the call does when it
  returns; \<open>add_watermark_error\<close>, after it, is the exception it raises instead, if any.
\<close>

definition adjust_transparency :: "platform \<Rightarrow> nat \<Rightarrow> int \<Rightarrow> world \<Rightarrow> nat \<times> world" where
  "adjust_transparency E watermark transparency w =
     (let (watermark, w) = (if mode (heap w ! watermark) \<noteq> ''RGBA''
                            then image_convert E watermark ''RGBA'' w else (watermark, w));
          alpha0 = alpha (heap w ! watermark);
          alpha1 = brightness_enhance alpha0 (truediv transparency 255);
          w = putalpha watermark alpha1 w
      in (watermark, w))"

definition add_watermark :: "platform \<Rightarrow> nat \<Rightarrow> nat \<Rightarrow> int \<times> int \<Rightarrow> int \<Rightarrow> world \<Rightarrow> nat \<times> world" where
  "add_watermark E base watermark position transparency w =
     (let (watermark, w) = adjust_transparency E watermark transparency w;
          (transparent, w) = image_new ''RGBA'' (im_size (heap w ! base)) ([0, 0, 0], 0) w;
          w = paste E transparent base (0, 0) None w;
          w = paste E transparent watermark position (Some watermark) w
      in image_convert E transparent ''RGB'' w)"

text \<open>
  The statements of \<^verbatim>\<open>add_watermark\<close> that can raise, in their order: the conversion of
  the watermark (when it is not RGBA) or else \<^verbatim>\<open>split\<close>, which loads it;
  \<^verbatim>\<open>transparency / 255\<close>; \<^verbatim>\<open>Image.new\<close> for the canvas; pasting the base image, which loads
  it. (The final \<^verbatim>\<open>convert('RGB')\<close> creates another image of the size of the canvas.)
\<close>

definition add_watermark_error :: "platform \<Rightarrow> nat \<Rightarrow> nat \<Rightarrow> int \<Rightarrow> world \<Rightarrow> exn option" where
  "add_watermark_error E base watermark transparency w =
     first_error
       [if mode (heap w ! watermark) \<noteq> ''RGBA'' then image_convert_error E watermark w
        else load_error watermark w,
        truediv_error transparency 255,
        image_new_error E (im_size (heap w ! base)) w,
        load_error base w]"

text \<open>
  \<^verbatim>\<open>process_image\<close>. \<open>process_image_try\<close> is the body of the \<^verbatim>\<open>try\<close> block: it returns
  the output path or the exception that left the block. \<open>normalize_rgb\<close> is its
  statement \<^verbatim>\<open>if img.mode != 'RGB': img = img.convert('RGB')\<close>, with the exception
  \<open>normalize_rgb_error\<close> that it raises instead, if any; the padding is the default 10 of
  \<^verbatim>\<open>calculate_position\<close>. The objects that a raising call created are garbage and are
  not kept in the store.
\<close>

definition normalize_rgb :: "platform \<Rightarrow> nat \<Rightarrow> world \<Rightarrow> nat \<times> world" where
  "normalize_rgb E img w =
     (if mode (heap w ! img) \<noteq> ''RGB'' then image_convert E img ''RGB'' w else (img, w))"

definition normalize_rgb_error :: "platform \<Rightarrow> nat \<Rightarrow> world \<Rightarrow> exn option" where
  "normalize_rgb_error E img w =
     (if mode (heap w ! img) \<noteq> ''RGB'' then image_convert_error E img w else None)"

definition process_image_try ::
  "platform \<Rightarrow> watermarker \<Rightarrow> string \<Rightarrow> string \<Rightarrow> rat \<Rightarrow> string \<Rightarrow> int \<Rightarrow> world \<Rightarrow> (exn + string) \<times> world" where
  "process_image_try E self img_path filename scale position transparency w =
     (case image_open img_path w of
        (Inl e, w) \<Rightarrow> (Inl e, w)
      | (Inr img, w) \<Rightarrow>
          (let w = log_record INFO (Processing filename (im_size (heap w ! img)) (mode (heap w ! img))) w
           in case normalize_rgb_error E img w of
                Some e \<Rightarrow> (Inl e, w)
              | None \<Rightarrow>
                  (let (img, w) = normalize_rgb E img w
                   in case resize_watermark E (watermark_img self) img scale w of
                        (Inl e, w) \<Rightarrow> (Inl e, w)
                      | (Inr scaled_watermark, w) \<Rightarrow>
                          (let watermark_position =
                                 calculate_position (heap w ! img) (heap w ! scaled_watermark) position 10
                           in case add_watermark_error E img scaled_watermark transparency w of
                                Some e \<Rightarrow> (Inl e, w)
                              | None \<Rightarrow>
                                  (let (watermarked_img, w) =
                                         add_watermark E img scaled_watermark watermark_position
                                           transparency w;
                                       output_path = path_join (output_dir self) filename
                                   in case image_save E watermarked_img output_path w of
                                        (Some e, w) \<Rightarrow> (Inl e, w)
                                      | (None, w) \<Rightarrow>
                                          (Inr output_path,
                                           log_record INFO (SuccessfullyProcessed filename) w))))))"

definition process_image ::
  "platform \<Rightarrow> watermarker \<Rightarrow> string \<Rightarrow> rat \<Rightarrow> string \<Rightarrow> int \<Rightarrow> world \<Rightarrow> string option \<times> world" where
  "process_image E self filename scale position transparency w =
     (let img_path = path_join (input_dir self) filename
      in case process_image_try E self img_path filename scale position transparency w of
           (Inr output_path, w) \<Rightarrow> (Some output_path, w)
         | (Inl e, w) \<Rightarrow> (None, log_record ERROR (ErrorProcessing filename e) w))"

text \<open>
  \<^verbatim>\<open>process_directory\<close>. \<open>process_entries\<close> is the \<^verbatim>\<open>for\<close> loop over the listing, with
  the two counters; \<^verbatim>\<open>os.listdir\<close> is outside any \<^verbatim>\<open>try\<close>.
\<close>

definition supported_formats :: "string set" where
  "supported_formats = {''.png'', ''.jpg'', ''.jpeg'', ''.bmp'', ''.webp''}"

fun process_entries ::
  "platform \<Rightarrow> watermarker \<Rightarrow> rat \<Rightarrow> string \<Rightarrow> int \<Rightarrow> string list \<Rightarrow> nat \<times> nat \<Rightarrow> world \<Rightarrow> (nat \<times> nat) \<times> world" where
  "process_entries E self scale position transparency [] (successful, failed) w =
     ((successful, failed), w)"
| "process_entries E self scale position transparency (filename # rest) (successful, failed) w =
     (if lower (snd (splitext filename)) \<in> supported_formats
      then (let (result, w) = process_image E self filename scale position transparency w
            in if truthy result
               then process_entries E self scale position transparency rest (successful + 1, failed) w
               else process_entries E self scale position transparency rest (successful, failed + 1) w)
      else process_entries E self scale position transparency rest (successful, failed) w)"

definition process_directory ::
  "platform \<Rightarrow> watermarker \<Rightarrow> rat \<Rightarrow> string \<Rightarrow> int \<Rightarrow> world \<Rightarrow> (exn + nat \<times> nat) \<times> world" where
  "process_directory E self scale position transparency w =
     (case listdir E (files w) (input_dir self) of
        Inl e \<Rightarrow> (Inl e, w)
      | Inr listing \<Rightarrow>
          (let (counts, w) = process_entries E self scale position transparency listing (0, 0) w
           in (Inr counts, w)))"

section \<open>The specification's words, and example data\<close>

text \<open>
  Integer division truncating toward zero, as the specification describes the centring;
  it is compared below with the floor division of the code.
\<close>

definition trunc_div :: "int \<Rightarrow> int \<Rightarrow> int" where
  "trunc_div a b = sgn a * sgn b * (\<bar>a\<bar> div \<bar>b\<bar>)"

text \<open>
  The height of the resized watermark as the specification words it:
  \<open>round(watermark.height \<times> newWidth / watermark.width)\<close>, in exact arithmetic.
\<close>

definition claimed_height :: "int \<Rightarrow> int \<Rightarrow> int \<Rightarrow> int" where
  "claimed_height wh new_width ww = round (of_int wh * of_int new_width / (of_int ww :: rat))"

text \<open>
  The watermark in mode RGBA, as the first statement of \<^verbatim>\<open>add_watermark\<close> leaves it: the
  image itself, or its conversion.
\<close>

definition as_rgba :: "platform \<Rightarrow> image \<Rightarrow> image" where
  "as_rgba E im =
     (if mode im \<noteq> ''RGBA''
      then set_raster (im\<lparr>mode := ''RGBA''\<rparr>) (convert_raster E im ''RGBA'') else im)"

text \<open>
  The fallback watermark as the specification describes it: a 150 x 50 transparent RGBA
  canvas with the text drawn at (10, 10) in the fill colour (0, 0, 0, 128), in Arial 24
  when that font is found and in the built-in font otherwise.
\<close>

definition fallback_watermark :: "platform \<Rightarrow> string \<Rightarrow> image" where
  "fallback_watermark E txt =
     (let canvas = \<lparr>mode = ''RGBA'', width = 150, height = 50,
                     bands = (\<lambda>_. [255, 255, 255]), alpha = (\<lambda>_. 0)\<rparr>;
          fnt = (if font_found E ''arial.ttf'' then TrueType ''arial.ttf'' 24 else DefaultFont)
      in set_raster canvas (text_raster E canvas (10, 10) txt fnt (0, 0, 0, 128)))"

text \<open>
  The driver as the specification describes it: \<^verbatim>\<open>process_image\<close> is invoked once for
  each name of a list, in order, whatever the earlier calls returned; the results are
  collected.
\<close>

fun process_each ::
  "platform \<Rightarrow> watermarker \<Rightarrow> rat \<Rightarrow> string \<Rightarrow> int \<Rightarrow> string list \<Rightarrow> world \<Rightarrow> string option list \<times> world" where
  "process_each E self scale position transparency [] w = ([], w)"
| "process_each E self scale position transparency (filename # rest) w =
     (let (result, w) = process_image E self filename scale position transparency w;
          (results, w) = process_each E self scale position transparency rest w
      in (result # results, w))"

text \<open>A sequence of \<^verbatim>\<open>process_image\<close> calls with arbitrary arguments on one watermarker.\<close>

fun process_calls ::
  "platform \<Rightarrow> watermarker \<Rightarrow> (string \<times> rat \<times> string \<times> int) list \<Rightarrow> world \<Rightarrow> world" where
  "process_calls E self [] w = w"
| "process_calls E self ((filename, scale, position, transparency) # calls) w =
     process_calls E self calls (snd (process_image E self filename scale position transparency w))"

text \<open>
  Example data: an opaque image of one colour; a platform on which every save succeeds,
  no TrueType font is installed, an image of more than \<open>2\<^sup>4\<^sup>0\<close> pixels does not fit in
  memory and the raster operations keep the raster they are given; a world with an
  RGBA template and an RGB image in the store, one readable image file, one file that
  is not an image, one image file whose pixels do not decode and one file that may not
  be read.
\<close>

definition plain :: "string \<Rightarrow> int \<Rightarrow> int \<Rightarrow> image" where
  "plain m w h = \<lparr>mode = m, width = w, height = h, bands = (\<lambda>_. [0, 0, 0]), alpha = (\<lambda>_. 255)\<rparr>"

definition demo_platform :: platform where
  "demo_platform =
     \<lparr>listdir = (\<lambda>fs d. Inr [''a.png'', ''notes.txt'', ''b.JPG'', ''c.gif'']),
      save_error = (\<lambda>fs p im. None),
      font_found = (\<lambda>name. False),
      out_of_memory = (\<lambda>store sz. 2 ^ 40 < fst sz * snd sz),
      convert_raster = (\<lambda>im m. (bands im, if m = ''RGBA'' then alpha im else (\<lambda>_. 255))),
      resample = (\<lambda>im sz. (bands im, alpha im)),
      paste_raster = (\<lambda>dst src box msk. (bands dst, alpha dst)),
      text_raster = (\<lambda>im xy txt fnt fill. (bands im, alpha im))\<rparr>"

definition demo_world :: world where
  "demo_world =
     \<lparr>heap = [plain ''RGBA'' 150 50, plain ''RGB'' 1000 800],
      files = [''in/a.png'' \<mapsto> ImageFile (plain ''P'' 1000 800),
               ''in/b.JPG'' \<mapsto> Unreadable UnidentifiedImageError,
               ''in/cut.png'' \<mapsto> Undecodable (plain ''RGB'' 640 480) OSError,
               ''locked.png'' \<mapsto> Unreadable PermissionError],
      logged = [],
      decode_error = Map.empty\<rparr>"

definition demo_self :: watermarker where
  "demo_self = \<lparr>input_dir = ''in'', output_dir = ''out'', logo_path = None,
                 watermark_text = ''Watermark'', watermark_img = 0\<rparr>"

section \<open>Placement of the watermark\<close>

lemma calculate_position_cases:
  "calculate_position b wm position p =
     (if position = ''center'' then ((width b - width wm) div 2, (height b - height wm) div 2)
      else if position = ''bottom-right'' then (width b - width wm - p, height b - height wm - p)
      else if position = ''bottom-left'' then (p, height b - height wm - p)
      else if position = ''top-left'' then (p, p)
      else (width b - width wm - p, p))"
  by (simp add: calculate_position_def positions_def dict_get_def)

lemma floor_half: "\<lfloor>(of_int k :: rat) / 2\<rfloor> = k div 2"
  using floor_divide_of_int_eq [of k 2, where ?'a = rat] by simp

lemma trunc_div_nonneg: "0 \<le> a \<Longrightarrow> trunc_div a 2 = a div 2"
  by (cases "a = 0") (simp_all add: trunc_div_def)

text \<open>
  C2, as stated, fails for a negative padding: with a 1 x 1 base image, a 1 x 1 watermark
  and padding -1 the two size conditions of the claim hold, and \<^verbatim>\<open>top-left\<close> gives the
  offset (-1, -1), which is outside the base image.
\<close>

theorem calculate_position_negative_padding:
  "width (plain ''RGBA'' 1 1) + 2 * (- 1) \<le> width (plain ''RGB'' 1 1)
   \<and> height (plain ''RGBA'' 1 1) + 2 * (- 1) \<le> height (plain ''RGB'' 1 1)
   \<and> calculate_position (plain ''RGB'' 1 1) (plain ''RGBA'' 1 1) ''top-left'' (- 1) = (- 1, - 1)
   \<and> \<not> (0::int) \<le> - 1"
  by (simp add: plain_def calculate_position_cases)

text \<open>
  C2 (amended): for a padding \<open>p \<ge> 0\<close>, sizes with \<open>wmW + 2p \<le> baseW\<close> and
  \<open>wmH + 2p \<le> baseH\<close>, and each of the five position modes, the offset \<open>(x, y)\<close> that
  \<^verbatim>\<open>calculate_position\<close> returns satisfies \<open>0 \<le> x\<close>, \<open>x + wmW \<le> baseW\<close>, \<open>0 \<le> y\<close> and
  \<open>y + wmH \<le> baseH\<close>: the bounding box of the watermark lies inside the base image,
  and the function does no clamping.
\<close>

theorem calculate_position_inside:
  assumes "0 \<le> p" and "width wm + 2 * p \<le> width b" and "height wm + 2 * p \<le> height b"
    and "position \<in> {''top-left'', ''top-right'', ''bottom-left'', ''bottom-right'', ''center''}"
    and "calculate_position b wm position p = (x, y)"
  shows "0 \<le> x \<and> x + width wm \<le> width b \<and> 0 \<le> y \<and> y + height wm \<le> height b"
proof -
  have "0 \<le> (width b - width wm) div 2" "(width b - width wm) div 2 \<le> width b - width wm"
       "0 \<le> (height b - height wm) div 2" "(height b - height wm) div 2 \<le> height b - height wm"
    using assms(1-3) by simp_all
  with assms show ?thesis
    unfolding calculate_position_cases by (auto split: if_splits)
qed

theorem calculate_position_inside_witness:
  "(0::int) \<le> 10 \<and> width (plain ''RGBA'' 100 40) + 2 * 10 \<le> width (plain ''RGB'' 1000 800)
   \<and> height (plain ''RGBA'' 100 40) + 2 * 10 \<le> height (plain ''RGB'' 1000 800)
   \<and> calculate_position (plain ''RGB'' 1000 800) (plain ''RGBA'' 100 40) ''bottom-right'' 10 = (890, 750)
   \<and> (0::int) \<le> 890 \<and> 890 + width (plain ''RGBA'' 100 40) \<le> width (plain ''RGB'' 1000 800)
   \<and> (0::int) \<le> 750 \<and> 750 + height (plain ''RGBA'' 100 40) \<le> height (plain ''RGB'' 1000 800)"
  using calculate_position_inside [of 10 "plain ''RGBA'' 100 40" "plain ''RGB'' 1000 800" "''bottom-right''" 890 750]
  by (simp add: plain_def calculate_position_cases)

text \<open>
  C7, as stated, fails at \<^verbatim>\<open>center\<close> when the watermark is larger than the base image by
  an odd number of pixels: for a 1 x 1 base image and a 2 x 2 watermark the code returns
  (-1, -1), the floor of -1/2, where division truncating toward zero gives (0, 0).
\<close>

theorem calculate_position_center_truncation:
  "calculate_position (plain ''RGB'' 1 1) (plain ''RGBA'' 2 2) ''center'' 10 = (- 1, - 1)
   \<and> (trunc_div (width (plain ''RGB'' 1 1) - width (plain ''RGBA'' 2 2)) 2,
       trunc_div (height (plain ''RGB'' 1 1) - height (plain ''RGBA'' 2 2)) 2) = (0, 0)"
  by (simp add: plain_def calculate_position_cases trunc_div_def)

text \<open>
  C7 (amended): for every base image, watermark and padding \<open>p\<close>, \<^verbatim>\<open>calculate_position\<close>
  returns \<open>(p, p)\<close> for \<^verbatim>\<open>top-left\<close>, \<open>(baseW - wmW - p, p)\<close> for \<^verbatim>\<open>top-right\<close>,
  \<open>(p, baseH - wmH - p)\<close> for \<^verbatim>\<open>bottom-left\<close>, \<open>(baseW - wmW - p, baseH - wmH - p)\<close> for
  \<^verbatim>\<open>bottom-right\<close>, and for \<^verbatim>\<open>center\<close> the floors of \<open>(baseW - wmW) / 2\<close> and
  \<open>(baseH - wmH) / 2\<close>, which are the truncated quotients whenever the watermark is not
  larger than the base image; for every other mode string it returns the
  \<^verbatim>\<open>top-right\<close> value.
\<close>

theorem calculate_position_table:
  "calculate_position b wm ''top-left'' p = (p, p)
   \<and> calculate_position b wm ''top-right'' p = (width b - width wm - p, p)
   \<and> calculate_position b wm ''bottom-left'' p = (p, height b - height wm - p)
   \<and> calculate_position b wm ''bottom-right'' p = (width b - width wm - p, height b - height wm - p)
   \<and> calculate_position b wm ''center'' p
       = (\<lfloor>(of_int (width b - width wm) :: rat) / 2\<rfloor>, \<lfloor>(of_int (height b - height wm) :: rat) / 2\<rfloor>)
   \<and> (width wm \<le> width b \<and> height wm \<le> height b \<longrightarrow>
        calculate_position b wm ''center'' p
          = (trunc_div (width b - width wm) 2, trunc_div (height b - height wm) 2))
   \<and> (position \<notin> {''top-left'', ''top-right'', ''bottom-left'', ''bottom-right'', ''center''} \<longrightarrow>
        calculate_position b wm position p = calculate_position b wm ''top-right'' p)"
  unfolding floor_half by (simp add: calculate_position_cases trunc_div_nonneg)

theorem calculate_position_table_witness:
  "width (plain ''RGBA'' 101 41) \<le> width (plain ''RGB'' 1000 800)
   \<and> height (plain ''RGBA'' 101 41) \<le> height (plain ''RGB'' 1000 800)
   \<and> ''nowhere'' \<notin> {''top-left'', ''top-right'', ''bottom-left'', ''bottom-right'', ''center''}
   \<and> calculate_position (plain ''RGB'' 1000 800) (plain ''RGBA'' 101 41) ''center'' 10 = (449, 379)
   \<and> (trunc_div (1000 - 101) 2, trunc_div (800 - 41) 2) = (449, 379)
   \<and> calculate_position (plain ''RGB'' 1000 800) (plain ''RGBA'' 101 41) ''nowhere'' 10 = (889, 10)"
  using calculate_position_table [of "plain ''RGB'' 1000 800" "plain ''RGBA'' 101 41" 10 "''nowhere''"]
  by (simp add: plain_def trunc_div_def calculate_position_cases)

section \<open>The store: what each operation changes\<close>

text \<open>
  Old objects are the elements of the store before a call; the store after a call that
  changes none of them has the old store as a prefix.
\<close>


lemma prefix_list_update:
  "prefix xs ys \<Longrightarrow> length xs \<le> r \<Longrightarrow> prefix xs (ys[r := v])"
  by (auto simp: prefix_def list_update_append)

lemma prefix_nth: "prefix xs ys \<Longrightarrow> r < length xs \<Longrightarrow> ys ! r = xs ! r"
  by (auto simp: prefix_def nth_append)

lemma alloc_simps [simp]:
  "fst (alloc im w) = length (heap w)"
  "heap (snd (alloc im w)) = heap w @ [im]"
  "files (snd (alloc im w)) = files w"
  "logged (snd (alloc im w)) = logged w"
  "decode_error (snd (alloc im w)) = decode_error w"
  by (simp_all add: alloc_def)

lemma image_convert_simps [simp]:
  "fst (image_convert E r m w) = length (heap w)"
  "heap (snd (image_convert E r m w)) = heap w @ [set_raster ((heap w ! r)\<lparr>mode := m\<rparr>) (convert_raster E (heap w ! r) m)]"
  "files (snd (image_convert E r m w)) = files w"
  "logged (snd (image_convert E r m w)) = logged w"
  by (simp_all add: image_convert_def Let_def)

lemma image_new_simps [simp]:
  "fst (image_new m sz c w) = length (heap w)"
  "heap (snd (image_new m sz c w)) = heap w @ [\<lparr>mode = m, width = fst sz, height = snd sz, bands = (\<lambda>_. fst c), alpha = (\<lambda>_. snd c)\<rparr>]"
  "files (snd (image_new m sz c w)) = files w"
  "logged (snd (image_new m sz c w)) = logged w"
  by (simp_all add: image_new_def)

lemma putalpha_simps [simp]:
  "heap (putalpha r a w) = (heap w)[r := (heap w ! r)\<lparr>alpha := a\<rparr>]"
  "files (putalpha r a w) = files w"
  "logged (putalpha r a w) = logged w"
  by (simp_all add: putalpha_def)

lemma paste_simps [simp]:
  "heap (paste E dst src box msk w) = (heap w)[dst := set_raster (heap w ! dst)
         (paste_raster E (heap w ! dst) (heap w ! src) box (map_option (\<lambda>m. heap w ! m) msk))]"
  "files (paste E dst src box msk w) = files w"
  "logged (paste E dst src box msk w) = logged w"
  by (simp_all add: paste_def)

lemma set_raster_simps [simp]:
  "mode (set_raster im r) = mode im"
  "width (set_raster im r) = width im"
  "height (set_raster im r) = height im"
  "bands (set_raster im r) = fst r"
  "alpha (set_raster im r) = snd r"
  by (simp_all add: set_raster_def)

lemma adjust_transparency_rgba:
  "mode (heap w ! wm) = ''RGBA'' \<Longrightarrow>
   adjust_transparency E wm t w =
     (wm, w\<lparr>heap := (heap w)[wm := (heap w ! wm)\<lparr>alpha := brightness_enhance (alpha (heap w ! wm)) (truediv t 255)\<rparr>]\<rparr>)"
  by (simp add: adjust_transparency_def putalpha_def)

lemma adjust_transparency_other:
  "mode (heap w ! wm) \<noteq> ''RGBA'' \<Longrightarrow>
   adjust_transparency E wm t w =
     (length (heap w),
      w\<lparr>heap := heap w @ [(set_raster ((heap w ! wm)\<lparr>mode := ''RGBA''\<rparr>) (convert_raster E (heap w ! wm) ''RGBA''))
            \<lparr>alpha := brightness_enhance (snd (convert_raster E (heap w ! wm) ''RGBA'')) (truediv t 255)\<rparr>]\<rparr>)"
  by (simp add: adjust_transparency_def putalpha_def image_convert_def alloc_def Let_def)

lemma adjust_transparency_frame:
  "r < length (heap w) \<Longrightarrow> r \<noteq> wm \<Longrightarrow> heap (snd (adjust_transparency E wm t w)) ! r = heap w ! r"
  by (cases "mode (heap w ! wm) = ''RGBA''")
     (simp_all add: adjust_transparency_rgba adjust_transparency_other nth_append)

lemma adjust_transparency_length:
  "length (heap w) \<le> length (heap (snd (adjust_transparency E wm t w)))"
  by (cases "mode (heap w ! wm) = ''RGBA''")
     (simp_all add: adjust_transparency_rgba adjust_transparency_other)

lemma adjust_transparency_valid:
  "wm < length (heap w) \<Longrightarrow> fst (adjust_transparency E wm t w) < length (heap (snd (adjust_transparency E wm t w)))"
  by (cases "mode (heap w ! wm) = ''RGBA''")
     (simp_all add: adjust_transparency_rgba adjust_transparency_other)

lemma adjust_transparency_files [simp]:
  "files (snd (adjust_transparency E wm t w)) = files w"
  "logged (snd (adjust_transparency E wm t w)) = logged w"
  by (cases "mode (heap w ! wm) = ''RGBA''";
      simp add: adjust_transparency_rgba adjust_transparency_other)+


lemma add_watermark_frame:
  assumes "r < length (heap w)" and "r \<noteq> wm"
  shows "heap (snd (add_watermark E base wm pos t w)) ! r = heap w ! r"
proof -
  obtain wm' w1 where a: "adjust_transparency E wm t w = (wm', w1)"
    by (cases "adjust_transparency E wm t w")
  have l: "length (heap w) \<le> length (heap w1)"
    using adjust_transparency_length [of w E wm t] a by simp
  have f: "heap w1 ! r = heap w ! r"
    using adjust_transparency_frame [OF assms, of E t] a by simp
  from l assms(1) have r: "r < length (heap w1)" by simp
  show ?thesis
    using r f by (simp add: add_watermark_def a split_def Let_def nth_append)
qed

lemma add_watermark_length:
  "length (heap w) \<le> length (heap (snd (add_watermark E base wm pos t w)))"
proof -
  obtain wm' w1 where a: "adjust_transparency E wm t w = (wm', w1)"
    by (cases "adjust_transparency E wm t w")
  have l: "length (heap w) \<le> length (heap w1)"
    using adjust_transparency_length [of w E wm t] a by simp
  show ?thesis
    using l by (simp add: add_watermark_def a split_def Let_def)
qed

lemma add_watermark_result:
  "fst (add_watermark E base wm pos t w) < length (heap (snd (add_watermark E base wm pos t w)))"
  "mode (heap (snd (add_watermark E base wm pos t w)) ! fst (add_watermark E base wm pos t w)) = ''RGB''"
  "files (snd (add_watermark E base wm pos t w)) = files w"
  "logged (snd (add_watermark E base wm pos t w)) = logged w"
proof -
  obtain wm' w1 where a: "adjust_transparency E wm t w = (wm', w1)"
    by (cases "adjust_transparency E wm t w")
  have fl: "files w1 = files w" "logged w1 = logged w"
    using adjust_transparency_files [of E wm t w] a by simp_all
  show "fst (add_watermark E base wm pos t w) < length (heap (snd (add_watermark E base wm pos t w)))"
    by (simp add: add_watermark_def a split_def Let_def)
  show "mode (heap (snd (add_watermark E base wm pos t w)) ! fst (add_watermark E base wm pos t w)) = ''RGB''"
    by (simp add: add_watermark_def a split_def Let_def nth_append)
  show "files (snd (add_watermark E base wm pos t w)) = files w"
    using fl by (simp add: add_watermark_def a split_def Let_def)
  show "logged (snd (add_watermark E base wm pos t w)) = logged w"
    using fl by (simp add: add_watermark_def a split_def Let_def)
qed

lemma add_watermark_keeps_adjusted:
  assumes "wm < length (heap w)"
  shows "heap (snd (add_watermark E base wm pos t w)) ! fst (adjust_transparency E wm t w)
         = heap (snd (adjust_transparency E wm t w)) ! fst (adjust_transparency E wm t w)"
proof -
  obtain wm' w1 where a: "adjust_transparency E wm t w = (wm', w1)"
    by (cases "adjust_transparency E wm t w")
  have v: "wm' < length (heap w1)"
    using adjust_transparency_valid [OF assms, of E t] a by simp
  show ?thesis
    using v by (simp add: add_watermark_def a split_def Let_def nth_append)
qed


lemma log_record_simps [simp]:
  "heap (log_record l m w) = heap w"
  "files (log_record l m w) = files w"
  "logged (log_record l m w) = logged w @ [(l, m)]"
  by (simp_all add: log_record_def)

lemma image_open_cases:
  "image_open path w = (res, w') \<Longrightarrow>
     (\<exists>e. res = Inl e \<and> w' = w) \<or>
     (\<exists>im. res = Inr (length (heap w)) \<and> heap w' = heap w @ [im]
           \<and> files w' = files w \<and> logged w' = logged w)"
  by (auto simp: image_open_def alloc_def split: option.splits file_content.splits)

lemma image_resize_cases:
  "image_resize E r sz w = (res, w') \<Longrightarrow>
     (\<exists>e. res = Inl e \<and> w' = w) \<or>
     (\<exists>im. res = Inr (length (heap w)) \<and> w' = w\<lparr>heap := heap w @ [im]\<rparr>
           \<and> mode im = mode (heap w ! r) \<and> im_size im = sz)"
  by (auto simp: image_resize_def image_new_error_def alloc_def Let_def im_size_def
           split: if_splits option.splits)

lemma resize_watermark_cases:
  "resize_watermark E wm base scale w = (res, w') \<Longrightarrow>
     (\<exists>e. res = Inl e \<and> w' = w) \<or>
     (\<exists>im. res = Inr (length (heap w)) \<and> w' = w\<lparr>heap := heap w @ [im]\<rparr>
           \<and> mode im = mode (heap w ! wm))"
  by (auto simp: resize_watermark_def Let_def split: if_splits option.splits
           dest!: image_resize_cases)

lemma normalize_rgb_cases:
  "normalize_rgb E img w = (img', w') \<Longrightarrow>
     (mode (heap w ! img) = ''RGB'' \<and> img' = img \<and> w' = w) \<or>
     (\<exists>im. mode (heap w ! img) \<noteq> ''RGB'' \<and> img' = length (heap w) \<and> w' = w\<lparr>heap := heap w @ [im]\<rparr> \<and> mode im = ''RGB''
        \<and> im_size im = im_size (heap w ! img))"
  by (auto simp: normalize_rgb_def image_convert_def alloc_def Let_def im_size_def split: if_splits)

lemma prefix_nthI:
  assumes "\<forall>r < length xs. ys ! r = xs ! r" and "length xs \<le> length ys"
  shows "prefix xs ys"
proof -
  have "xs = take (length xs) ys"
    using assms by (intro nth_equalityI) simp_all
  then show ?thesis
    by (metis take_is_prefix)
qed

lemma add_watermark_prefix:
  assumes "length xs \<le> wm" and "prefix xs (heap w)"
  shows "prefix xs (heap (snd (add_watermark E base wm pos t w)))"
proof -
  have "\<forall>r < length xs. heap (snd (add_watermark E base wm pos t w)) ! r = xs ! r"
    using assms add_watermark_frame [of _ w wm E base pos t]
    by (auto simp: prefix_def nth_append)
  moreover have "length xs \<le> length (heap (snd (add_watermark E base wm pos t w)))"
    using add_watermark_length [of w E base wm pos t] assms(2) by (auto simp: prefix_def)
  ultimately show ?thesis
    by (rule prefix_nthI)
qed

lemma image_save_cases:
  "image_save E r path w = (res, w') \<Longrightarrow>
     heap w' = heap w \<and> logged w' = logged w \<and>
     ((\<exists>e. res = Some e \<and> w' = w) \<or> (res = None \<and> files w' = (files w)(path \<mapsto> ImageFile (heap w ! r))))"
  by (auto simp: image_save_def split: option.splits)


lemma add_watermark_cases:
  assumes "add_watermark E base wm pos t w = (res, w')" and "length xs \<le> wm" and "prefix xs (heap w)"
  shows "prefix xs (heap w') \<and> res < length (heap w') \<and> mode (heap w' ! res) = ''RGB''
         \<and> files w' = files w \<and> logged w' = logged w"
  using add_watermark_prefix [OF assms(2,3), of E base pos t]
        add_watermark_result [of E base wm pos t w] assms(1)
  by simp

text \<open>The \<^verbatim>\<open>try\<close> block of \<^verbatim>\<open>process_image\<close>, stage by stage.\<close>

lemma try_open_error:
  "image_open img_path w = (Inl e, w0) \<Longrightarrow>
   process_image_try E self img_path filename scale position transparency w = (Inl e, w0)"
  by (simp add: process_image_try_def)

lemma try_convert_error:
  assumes "image_open img_path w = (Inr img, w0)"
    and "w1 = log_record INFO (Processing filename (im_size (heap w0 ! img)) (mode (heap w0 ! img))) w0"
    and "normalize_rgb_error E img w1 = Some e"
  shows "process_image_try E self img_path filename scale position transparency w = (Inl e, w1)"
  using assms by (simp add: process_image_try_def Let_def)

lemma try_resize_error:
  assumes "image_open img_path w = (Inr img, w0)"
    and "w1 = log_record INFO (Processing filename (im_size (heap w0 ! img)) (mode (heap w0 ! img))) w0"
    and "normalize_rgb_error E img w1 = None"
    and "normalize_rgb E img w1 = (img', w2)"
    and "resize_watermark E (watermark_img self) img' scale w2 = (Inl e, w3)"
  shows "process_image_try E self img_path filename scale position transparency w = (Inl e, w3)"
  using assms by (simp add: process_image_try_def Let_def)

lemma try_composite_error:
  assumes "image_open img_path w = (Inr img, w0)"
    and "w1 = log_record INFO (Processing filename (im_size (heap w0 ! img)) (mode (heap w0 ! img))) w0"
    and "normalize_rgb_error E img w1 = None"
    and "normalize_rgb E img w1 = (img', w2)"
    and "resize_watermark E (watermark_img self) img' scale w2 = (Inr sw, w3)"
    and "add_watermark_error E img' sw transparency w3 = Some e"
  shows "process_image_try E self img_path filename scale position transparency w = (Inl e, w3)"
  using assms by (simp add: process_image_try_def Let_def)

lemma try_save:
  assumes "image_open img_path w = (Inr img, w0)"
    and "w1 = log_record INFO (Processing filename (im_size (heap w0 ! img)) (mode (heap w0 ! img))) w0"
    and "normalize_rgb_error E img w1 = None"
    and "normalize_rgb E img w1 = (img', w2)"
    and "resize_watermark E (watermark_img self) img' scale w2 = (Inr sw, w3)"
    and "add_watermark_error E img' sw transparency w3 = None"
    and "add_watermark E img' sw (calculate_position (heap w3 ! img') (heap w3 ! sw) position 10)
           transparency w3 = (wmd, w4)"
    and "image_save E wmd (path_join (output_dir self) filename) w4 = (r5, w5)"
  shows "process_image_try E self img_path filename scale position transparency w =
           (case r5 of
              Some e \<Rightarrow> (Inl e, w5)
            | None \<Rightarrow> (Inr (path_join (output_dir self) filename),
                       log_record INFO (SuccessfullyProcessed filename) w5))"
  using assms by (simp add: process_image_try_def Let_def split: option.splits)

lemma process_image_try_cases:
  assumes "process_image_try E self img_path filename scale position transparency w = (res, w')"
  shows "prefix (heap w) (heap w') \<and>
         ((\<exists>e. res = Inl e) \<or>
          (res = Inr (path_join (output_dir self) filename)
           \<and> (\<exists>im. files w' (path_join (output_dir self) filename) = Some (ImageFile im) \<and> mode im = ''RGB'')
           \<and> last (logged w') = (INFO, SuccessfullyProcessed filename)))"
proof -
  obtain r0 w0 where o: "image_open img_path w = (r0, w0)"
    by (cases "image_open img_path w")
  from image_open_cases [OF o] show ?thesis
  proof (elim disjE exE conjE)
    fix e assume "r0 = Inl e" "w0 = w"
    with o have oe: "image_open img_path w = (Inl e, w)" by simp
    from try_open_error [OF oe] assms show ?thesis by auto
  next
    fix im assume r0: "r0 = Inr (length (heap w))" and h0: "heap w0 = heap w @ [im]"
    let ?img = "length (heap w)"
    define w1 where "w1 = log_record INFO (Processing filename (im_size (heap w0 ! ?img)) (mode (heap w0 ! ?img))) w0"
    have o': "image_open img_path w = (Inr ?img, w0)" using o r0 by simp
    have p1: "prefix (heap w) (heap w1)" using h0 by (simp add: w1_def)
    show ?thesis
    proof (cases "normalize_rgb_error E ?img w1")
      case (Some e)
      from try_convert_error [OF o' w1_def Some] assms p1 show ?thesis by auto
    next
      case None
      note ne = this
      obtain img' w2 where n: "normalize_rgb E ?img w1 = (img', w2)"
        by (cases "normalize_rgb E ?img w1")
      have p2: "prefix (heap w) (heap w2)"
        using normalize_rgb_cases [OF n] p1 by (auto simp: prefix_def)
      obtain r3 w3 where rs: "resize_watermark E (watermark_img self) img' scale w2 = (r3, w3)"
        by (cases "resize_watermark E (watermark_img self) img' scale w2")
      from resize_watermark_cases [OF rs] show ?thesis
      proof (elim disjE exE conjE)
        fix e assume "r3 = Inl e" "w3 = w2"
        with rs have re: "resize_watermark E (watermark_img self) img' scale w2 = (Inl e, w2)" by simp
        from try_resize_error [OF o' w1_def ne n re] assms p2 show ?thesis by auto
      next
        fix sc assume r3: "r3 = Inr (length (heap w2))" and w3: "w3 = w2\<lparr>heap := heap w2 @ [sc]\<rparr>"
        have rs': "resize_watermark E (watermark_img self) img' scale w2 = (Inr (length (heap w2)), w3)"
          using rs r3 by simp
        have p3: "prefix (heap w) (heap w3)" using p2 w3 by (auto simp: prefix_def)
        have le: "length (heap w) \<le> length (heap w2)" using p2 by (auto simp: prefix_def)
        show ?thesis
        proof (cases "add_watermark_error E img' (length (heap w2)) transparency w3")
          case (Some e)
          from try_composite_error [OF o' w1_def ne n rs' Some] assms p3 show ?thesis by auto
        next
          case None
          let ?pos = "calculate_position (heap w3 ! img') (heap w3 ! length (heap w2)) position 10"
          obtain wmd w4 where a: "add_watermark E img' (length (heap w2)) ?pos transparency w3 = (wmd, w4)"
            by (cases "add_watermark E img' (length (heap w2)) ?pos transparency w3")
          note a4 = add_watermark_cases [OF a le p3]
          obtain r5 w5 where sv: "image_save E wmd (path_join (output_dir self) filename) w4 = (r5, w5)"
            by (cases "image_save E wmd (path_join (output_dir self) filename) w4")
          note s5 = image_save_cases [OF sv]
          note t = try_save [OF o' w1_def ne n rs' None a sv]
          show ?thesis
          proof (cases r5)
            case None
            with t assms have "res = Inr (path_join (output_dir self) filename)"
              and "w' = log_record INFO (SuccessfullyProcessed filename) w5"
              by simp_all
            with a4 s5 None show ?thesis by auto
          next
            case (Some e)
            with t assms have "res = Inl e" and "w' = w5" by simp_all
            with a4 s5 show ?thesis by auto
          qed
        qed
      qed
    qed
  qed
qed

section \<open>Loading the watermark\<close>

lemma text_watermark_eq:
  "text_watermark E self w =
     (length (heap w), w\<lparr>heap := heap w @ [fallback_watermark E (watermark_text self)]\<rparr>)"
  by (simp add: text_watermark_def fallback_watermark_def image_new_def alloc_def draw_text_def
        truetype_def Let_def)

text \<open>
  C4, as stated, fails for a logo file that exists and cannot be read: \<^verbatim>\<open>Image.open\<close>
  raises \<^verbatim>\<open>PermissionError\<close>, the handler of \<^verbatim>\<open>_load_watermark\<close> catches only
  \<^verbatim>\<open>FileNotFoundError\<close> and \<^verbatim>\<open>AttributeError\<close>, and the exception leaves the function: no
  fallback is returned and no warning is logged.
\<close>

theorem load_watermark_unreadable_logo:
  "truthy (logo_path (demo_self\<lparr>logo_path := Some ''locked.png''\<rparr>))
   \<and> files demo_world ''locked.png'' = Some (Unreadable PermissionError)
   \<and> load_watermark demo_platform (demo_self\<lparr>logo_path := Some ''locked.png''\<rparr>) demo_world
       = (Inl PermissionError, demo_world)"
  by (simp add: load_watermark_def truthy_def demo_self_def demo_world_def image_open_def)

text \<open>
  C4 (amended): for every logo path argument, if the logo file is missing, so that
  \<^verbatim>\<open>Image.open\<close> raises \<^verbatim>\<open>FileNotFoundError\<close>, \<^verbatim>\<open>_load_watermark\<close> does not abort: it returns
  the synthesized fallback, a new 150 x 50 transparent RGBA canvas with the configured
  text drawn at (10, 10) in the fill colour (0, 0, 0) with alpha 128, and logs one
  warning; the same fallback is returned, with nothing logged, when no logo path is
  given.
\<close>

theorem load_watermark_fallback:
  "(truthy (logo_path self) \<and> fst (image_open (the (logo_path self)) w) = Inl FileNotFoundError \<longrightarrow>
      load_watermark E self w =
        (Inr (length (heap w)),
         w\<lparr>heap := heap w @ [fallback_watermark E (watermark_text self)],
           logged := logged w @ [(WARNING, LogoNotFound)]\<rparr>))
   \<and> (files w path = None \<longrightarrow> fst (image_open path w) = Inl FileNotFoundError)
   \<and> (\<not> truthy (logo_path self) \<longrightarrow>
      load_watermark E self w =
        (Inr (length (heap w)), w\<lparr>heap := heap w @ [fallback_watermark E (watermark_text self)]\<rparr>))
   \<and> mode (fallback_watermark E txt) = ''RGBA'' \<and> im_size (fallback_watermark E txt) = (150, 50)"
proof -
  have "load_watermark E self w =
        (Inr (length (heap w)),
         w\<lparr>heap := heap w @ [fallback_watermark E (watermark_text self)],
           logged := logged w @ [(WARNING, LogoNotFound)]\<rparr>)"
    if "truthy (logo_path self)" and "fst (image_open (the (logo_path self)) w) = Inl FileNotFoundError"
  proof -
    obtain r w0 where o: "image_open (the (logo_path self)) w = (r, w0)"
      by (cases "image_open (the (logo_path self)) w")
    with that(2) image_open_cases [OF o] have "r = Inl FileNotFoundError" "w0 = w"
      by auto
    with o that(1) show ?thesis
      by (simp add: load_watermark_def text_watermark_eq log_record_def)
  qed
  moreover have "files w path = None \<longrightarrow> fst (image_open path w) = Inl FileNotFoundError"
    by (simp add: image_open_def)
  moreover have "\<not> truthy (logo_path self) \<longrightarrow>
      load_watermark E self w =
        (Inr (length (heap w)), w\<lparr>heap := heap w @ [fallback_watermark E (watermark_text self)]\<rparr>)"
    by (simp add: load_watermark_def text_watermark_eq)
  moreover have "mode (fallback_watermark E txt) = ''RGBA'' \<and> im_size (fallback_watermark E txt) = (150, 50)"
    by (simp add: fallback_watermark_def Let_def im_size_def)
  ultimately show ?thesis by blast
qed

theorem load_watermark_fallback_witness:
  "truthy (logo_path (demo_self\<lparr>logo_path := Some ''missing.png''\<rparr>))
   \<and> files demo_world ''missing.png'' = None
   \<and> load_watermark demo_platform (demo_self\<lparr>logo_path := Some ''missing.png''\<rparr>) demo_world
       = (Inr 2, demo_world\<lparr>heap := heap demo_world @ [fallback_watermark demo_platform ''Watermark''],
                            logged := [(WARNING, LogoNotFound)]\<rparr>)
   \<and> \<not> truthy (logo_path demo_self)
   \<and> load_watermark demo_platform demo_self demo_world
       = (Inr 2, demo_world\<lparr>heap := heap demo_world @ [fallback_watermark demo_platform ''Watermark'']\<rparr>)"
  using load_watermark_fallback [of "demo_self\<lparr>logo_path := Some ''missing.png''\<rparr>" demo_world demo_platform "''missing.png''"]
        load_watermark_fallback [of demo_self demo_world demo_platform "''missing.png''"]
  by (simp add: truthy_def demo_self_def demo_world_def)

section \<open>Processing one image\<close>

lemma process_image_cases:
  "(\<exists>w1. process_image_try E self (path_join (input_dir self) filename) filename scale position transparency w
            = (Inr (path_join (output_dir self) filename), w1)
         \<and> process_image E self filename scale position transparency w
            = (Some (path_join (output_dir self) filename), w1)
         \<and> last (logged w1) = (INFO, SuccessfullyProcessed filename)
         \<and> (\<exists>im. files w1 (path_join (output_dir self) filename) = Some (ImageFile im) \<and> mode im = ''RGB'')
         \<and> prefix (heap w) (heap w1))
   \<or> (\<exists>e w1. process_image_try E self (path_join (input_dir self) filename) filename scale position transparency w
            = (Inl e, w1)
         \<and> process_image E self filename scale position transparency w
            = (None, log_record ERROR (ErrorProcessing filename e) w1)
         \<and> prefix (heap w) (heap w1))"
proof -
  obtain res w1 where t: "process_image_try E self (path_join (input_dir self) filename) filename scale position transparency w = (res, w1)"
    by (cases "process_image_try E self (path_join (input_dir self) filename) filename scale position transparency w")
  from process_image_try_cases [OF t] t show ?thesis
    by (auto simp: process_image_def Let_def)
qed

lemma process_image_prefix:
  "prefix (heap w) (heap (snd (process_image E self filename scale position transparency w)))"
  using process_image_cases [of E self filename scale position transparency w]
  by auto





text \<open>
  C6: whatever the mode of the input image, the image that \<^verbatim>\<open>process_image\<close> saves has
  mode RGB. The image handed to the compositing steps has mode RGB: an RGB source is
  kept as the object it is, any other source is replaced by a new object converted to
  RGB; and the image that \<^verbatim>\<open>add_watermark\<close> returns has mode RGB, so no alpha band is
  saved.
\<close>

theorem saved_image_is_rgb:
  "(process_image E self filename scale position transparency w = (Some p, w') \<longrightarrow>
      (\<exists>im. files w' p = Some (ImageFile im) \<and> mode im = ''RGB''))
   \<and> (img < length (heap w) \<longrightarrow>
        mode (heap (snd (normalize_rgb E img w)) ! fst (normalize_rgb E img w)) = ''RGB'')
   \<and> (mode (heap w ! img) = ''RGB'' \<longrightarrow> normalize_rgb E img w = (img, w))
   \<and> (mode (heap w ! img) \<noteq> ''RGB'' \<longrightarrow> 
        normalize_rgb E img w = image_convert E img ''RGB'' w \<and> fst (normalize_rgb E img w) = length (heap w))
   \<and> mode (heap (snd (add_watermark E base wm pos t w)) ! fst (add_watermark E base wm pos t w)) = ''RGB''"
proof -
  have "process_image E self filename scale position transparency w = (Some p, w') \<longrightarrow>
      (\<exists>im. files w' p = Some (ImageFile im) \<and> mode im = ''RGB'')"
    using process_image_cases [of E self filename scale position transparency w] by auto
  moreover have "img < length (heap w) \<longrightarrow>
        mode (heap (snd (normalize_rgb E img w)) ! fst (normalize_rgb E img w)) = ''RGB''"
    by (simp add: normalize_rgb_def)
  ultimately show ?thesis
    by (simp add: normalize_rgb_def add_watermark_result)
qed


theorem saved_image_is_rgb_witness:
  "fst (process_image demo_platform demo_self ''a.png'' (1 / 8) ''bottom-right'' 128 demo_world) = Some ''out/a.png''
   \<and> (\<exists>im. files (snd (process_image demo_platform demo_self ''a.png'' (1 / 8) ''bottom-right'' 128 demo_world)) ''out/a.png''
             = Some (ImageFile im) \<and> mode im = ''RGB'')
   \<and> 0 < length (heap demo_world) \<and> mode (heap demo_world ! 0) \<noteq> ''RGB''
   \<and> mode (heap (snd (normalize_rgb demo_platform 0 demo_world)) ! fst (normalize_rgb demo_platform 0 demo_world)) = ''RGB''
   \<and> fst (normalize_rgb demo_platform 0 demo_world) = 2"
proof -
  let ?r = "process_image demo_platform demo_self ''a.png'' (1 / 8) ''bottom-right'' 128 demo_world"
  have f: "fst ?r = Some ''out/a.png''"
    by code_simp
  then have e: "?r = (Some ''out/a.png'', snd ?r)"
    by (simp add: prod_eq_iff)
  have d: "0 < length (heap demo_world)" "mode (heap demo_world ! 0) \<noteq> ''RGB''" "length (heap demo_world) = 2"
    by (simp_all add: demo_world_def plain_def)
  from saved_image_is_rgb [of demo_platform demo_self "''a.png''" "1 / 8" "''bottom-right''" 128
      demo_world "''out/a.png''" "snd ?r" 0] e f d
  show ?thesis by (simp add: nth_append)
qed

section \<open>The watermark template\<close>

lemma process_calls_prefix:
  "prefix (heap w) (heap (process_calls E self calls w))"
proof (induction calls arbitrary: w)
  case Nil
  show ?case by simp
next
  case (Cons c calls)
  obtain filename scale position transparency where c: "c = (filename, scale, position, transparency)"
    by (cases c)
  have "prefix (heap w) (heap (snd (process_image E self filename scale position transparency w)))"
    by (rule process_image_prefix)
  also have "prefix \<dots> (heap (process_calls E self (c # calls) w))"
    unfolding c using Cons.IH by simp
  finally show ?case .
qed

lemma resize_watermark_fresh:
  assumes "resize_watermark E wm base scale w = (Inr r, w')"
  shows "r = length (heap w) \<and> length (heap w') = Suc (length (heap w)) \<and> prefix (heap w) (heap w') \<and> files w' = files w \<and> logged w' = logged w"
  using resize_watermark_cases [OF assms] by auto

text \<open>
  C9: for every sequence of \<^verbatim>\<open>process_image\<close> calls, the image object that
  \<^verbatim>\<open>self.watermark_img\<close> refers to is the same before and after (mode, size and raster);
  so it is after one call; and the scaled watermark that \<^verbatim>\<open>resize_watermark\<close> returns is
  a new object, not the template, which the resizing leaves as it was.
\<close>

theorem template_never_mutated:
  assumes "watermark_img self < length (heap w)"
  shows "heap (process_calls E self calls w) ! watermark_img self = heap w ! watermark_img self
         \<and> heap (snd (process_image E self filename scale position transparency w)) ! watermark_img self
             = heap w ! watermark_img self
         \<and> (\<forall>r w'. resize_watermark E (watermark_img self) img scale w = (Inr r, w') \<longrightarrow>
               r \<noteq> watermark_img self \<and> r = length (heap w)
               \<and> heap w' ! watermark_img self = heap w ! watermark_img self)"
proof -
  have "heap (process_calls E self calls w) ! watermark_img self = heap w ! watermark_img self"
    using process_calls_prefix assms by (rule prefix_nth)
  moreover have "heap (snd (process_image E self filename scale position transparency w)) ! watermark_img self
             = heap w ! watermark_img self"
    using process_image_prefix assms by (rule prefix_nth)
  moreover have "\<forall>r w'. resize_watermark E (watermark_img self) img scale w = (Inr r, w') \<longrightarrow>
               r \<noteq> watermark_img self \<and> r = length (heap w)
               \<and> heap w' ! watermark_img self = heap w ! watermark_img self"
    using assms by (auto dest!: resize_watermark_fresh simp: prefix_def nth_append)
  ultimately show ?thesis by simp
qed

theorem template_never_mutated_witness:
  "watermark_img demo_self < length (heap demo_world)
   \<and> heap (process_calls demo_platform demo_self
              [(''a.png'', 1 / 8, ''bottom-right'', 128), (''b.JPG'', 1 / 2, ''center'', 255),
               (''a.png'', 1, ''top-left'', 0)] demo_world) ! watermark_img demo_self
       = heap demo_world ! watermark_img demo_self
   \<and> fst (resize_watermark demo_platform (watermark_img demo_self) 1 (1 / 8) demo_world) = Inr 2"
proof -
  have v: "watermark_img demo_self < length (heap demo_world)"
    by (simp add: demo_self_def demo_world_def)
  have r: "fst (resize_watermark demo_platform (watermark_img demo_self) 1 (1 / 8) demo_world) = Inr 2"
    by code_simp
  from template_never_mutated [OF v, of demo_platform
      "[(''a.png'', 1 / 8, ''bottom-right'', 128), (''b.JPG'', 1 / 2, ''center'', 255), (''a.png'', 1, ''top-left'', 0)]"]
    v r
  show ?thesis by simp
qed

section \<open>The arguments of add_watermark\<close>

text \<open>
  C10, as stated, fails when the two arguments are one object: \<^verbatim>\<open>add_watermark(im, im, ...)\<close>
  with an RGBA image changes the alpha band of \<open>im\<close>, which is the base image argument.
\<close>

theorem add_watermark_aliased_arguments:
  "heap (snd (add_watermark demo_platform 0 0 (0, 0) 128 demo_world)) ! 0 \<noteq> heap demo_world ! 0"
proof -
  have "alpha (heap (snd (add_watermark demo_platform 0 0 (0, 0) 128 demo_world)) ! 0) (0, 0) = 128"
    by code_simp
  moreover have "alpha (heap demo_world ! 0) (0, 0) = 255"
    by (simp add: demo_world_def plain_def)
  ultimately show ?thesis by auto
qed

text \<open>
  C10 (amended): \<^verbatim>\<open>add_watermark\<close> does not modify the base image argument when it is
  another object than the watermark argument, or when the watermark is not in mode RGBA;
  the composite is a new object. When the watermark argument is in mode RGBA, its
  alpha band is overwritten in place with the enhanced band; when it is not, the
  argument is left as it was (the converted copy is changed instead).
\<close>

theorem add_watermark_effects:
  assumes "base < length (heap w)" and "wm < length (heap w)"
  shows "(base \<noteq> wm \<or> mode (heap w ! wm) \<noteq> ''RGBA'' \<longrightarrow>
            heap (snd (add_watermark E base wm pos t w)) ! base = heap w ! base)
         \<and> length (heap w) \<le> fst (add_watermark E base wm pos t w)
         \<and> (mode (heap w ! wm) = ''RGBA'' \<longrightarrow>
              heap (snd (add_watermark E base wm pos t w)) ! wm
                = (heap w ! wm)\<lparr>alpha := brightness_enhance (alpha (heap w ! wm)) (truediv t 255)\<rparr>)
         \<and> (mode (heap w ! wm) \<noteq> ''RGBA'' \<longrightarrow>
              heap (snd (add_watermark E base wm pos t w)) ! wm = heap w ! wm)"
proof -
  let ?w' = "snd (add_watermark E base wm pos t w)"
  have 1: "base \<noteq> wm \<Longrightarrow> heap ?w' ! base = heap w ! base"
    using assms(1) by (rule add_watermark_frame)
  have 2: "mode (heap w ! wm) \<noteq> ''RGBA'' \<Longrightarrow> heap ?w' ! r = heap w ! r" if "r < length (heap w)" for r
  proof -
    assume m: "mode (heap w ! wm) \<noteq> ''RGBA''"
    show ?thesis
    proof (cases "r = wm")
      case False
      with that show ?thesis by (simp add: add_watermark_frame)
    next
      case True
      have "heap ?w' ! r = heap (snd (adjust_transparency E wm t w)) ! r"
        using that True m by (simp add: add_watermark_def split_def Let_def adjust_transparency_other nth_append)
      with that m True show ?thesis
        by (simp add: adjust_transparency_other nth_append)
    qed
  qed
  have 3: "length (heap w) \<le> fst (add_watermark E base wm pos t w)"
    using adjust_transparency_length [of w E wm t]
    by (simp add: add_watermark_def split_def Let_def)
  have 4: "mode (heap w ! wm) = ''RGBA'' \<Longrightarrow>
      heap ?w' ! wm = (heap w ! wm)\<lparr>alpha := brightness_enhance (alpha (heap w ! wm)) (truediv t 255)\<rparr>"
    using add_watermark_keeps_adjusted [OF assms(2), of E base pos t] assms(2)
    by (simp add: adjust_transparency_rgba)
  from 1 2 [OF assms(1)] 2 [OF assms(2)] 3 4 show ?thesis by blast
qed

theorem add_watermark_effects_witness:
  "(1::nat) < length (heap demo_world) \<and> (0::nat) < length (heap demo_world)
   \<and> mode (heap demo_world ! 0) = ''RGBA''
   \<and> heap (snd (add_watermark demo_platform 1 0 (10, 10) 128 demo_world)) ! 1 = heap demo_world ! 1
   \<and> alpha (heap demo_world ! 0) (0, 0) = 255
   \<and> alpha (heap (snd (add_watermark demo_platform 1 0 (10, 10) 128 demo_world)) ! 0) (0, 0) = 128"
proof -
  have v: "(1::nat) < length (heap demo_world)" "(0::nat) < length (heap demo_world)"
    "mode (heap demo_world ! 0) = ''RGBA''" "alpha (heap demo_world ! 0) (0, 0) = 255"
    by (simp_all add: demo_world_def plain_def)
  have b: "blend_black (truediv 128 255) 255 = 128"
    by code_simp
  from add_watermark_effects [OF v(1,2), of demo_platform "(10, 10)" 128] v b
  show ?thesis by (simp add: brightness_enhance_def)
qed

section \<open>Processing a directory\<close>

lemma splitext_empty: "splitext [] = ([], [])"
  by (simp add: splitext_def rfind_def)

lemma supported_nonempty:
  "lower (snd (splitext filename)) \<in> supported_formats \<Longrightarrow> filename \<noteq> []"
  by (auto simp: splitext_empty lower_def supported_formats_def)

lemma path_join_nonempty: "b \<noteq> [] \<Longrightarrow> path_join a b \<noteq> []"
  by (auto simp: path_join_def)

lemma process_image_truthy:
  assumes "filename \<noteq> []"
  shows "truthy (fst (process_image E self filename scale position transparency w))
         \<longleftrightarrow> fst (process_image E self filename scale position transparency w) \<noteq> None"
  using process_image_cases [of E self filename scale position transparency w]
        path_join_nonempty [OF assms, of "output_dir self"]
  by (auto simp: truthy_def)

lemma process_entries_each:
  "process_entries E self scale position transparency listing (successful, failed) w =
     (let (results, w') = process_each E self scale position transparency
                            (filter (\<lambda>f. lower (snd (splitext f)) \<in> supported_formats) listing) w
      in ((successful + length (filter (\<lambda>r. r \<noteq> None) results),
           failed + length (filter (\<lambda>r. r = None) results)), w'))"
proof (induction listing arbitrary: successful failed w)
  case Nil
  show ?case by simp
next
  case (Cons filename rest)
  show ?case
  proof (cases "lower (snd (splitext filename)) \<in> supported_formats")
    case False
    then show ?thesis using Cons.IH by simp
  next
    case True
    obtain result w1 where p: "process_image E self filename scale position transparency w = (result, w1)"
      by (cases "process_image E self filename scale position transparency w")
    have t: "truthy result \<longleftrightarrow> result \<noteq> None"
      using process_image_truthy [OF supported_nonempty [OF True], of E self scale position transparency w] p
      by simp
    show ?thesis
      using True p t Cons.IH by (simp add: split_def Let_def)
  qed
qed

lemma process_each_length:
  "length (fst (process_each E self scale position transparency names w)) = length names"
  by (induction names arbitrary: w) (simp_all add: split_def Let_def)

text \<open>
  C8: when \<^verbatim>\<open>os.listdir\<close> returns a listing, \<^verbatim>\<open>process_directory\<close> invokes
  \<^verbatim>\<open>process_image\<close> once for each entry whose extension, lowered, is one of .png, .jpg,
  .jpeg, .bmp and .webp, in the order of the listing and for no other entry; it visits
  only the listed names; it goes on after a failure; and it returns the number of calls
  that returned a path and the number of calls that returned \<^verbatim>\<open>None\<close>.
\<close>

theorem process_directory_counts:
  assumes "listdir E (files w) (input_dir self) = Inr listing"
  shows "process_directory E self scale position transparency w =
           (let (results, w') = process_each E self scale position transparency
                                  (filter (\<lambda>f. lower (snd (splitext f)) \<in> supported_formats) listing) w
            in (Inr (length (filter (\<lambda>r. r \<noteq> None) results), length (filter (\<lambda>r. r = None) results)), w'))
         \<and> length (fst (process_each E self scale position transparency
                          (filter (\<lambda>f. lower (snd (splitext f)) \<in> supported_formats) listing) w))
             = length (filter (\<lambda>f. lower (snd (splitext f)) \<in> supported_formats) listing)"
  using assms by (simp add: process_directory_def process_entries_each split_def Let_def process_each_length)

theorem process_directory_counts_witness:
  "listdir demo_platform (files demo_world) (input_dir demo_self) = Inr [''a.png'', ''notes.txt'', ''b.JPG'', ''c.gif'']
   \<and> filter (\<lambda>f. lower (snd (splitext f)) \<in> supported_formats) [''a.png'', ''notes.txt'', ''b.JPG'', ''c.gif'']
       = [''a.png'', ''b.JPG'']
   \<and> fst (process_each demo_platform demo_self (1 / 8) ''bottom-right'' 128 [''a.png'', ''b.JPG''] demo_world)
       = [Some ''out/a.png'', None]
   \<and> fst (process_directory demo_platform demo_self (1 / 8) ''bottom-right'' 128 demo_world) = Inr (1, 1)"
proof -
  have l: "listdir demo_platform (files demo_world) (input_dir demo_self) = Inr [''a.png'', ''notes.txt'', ''b.JPG'', ''c.gif'']"
    by (simp add: demo_platform_def)
  have f: "filter (\<lambda>f. lower (snd (splitext f)) \<in> supported_formats) [''a.png'', ''notes.txt'', ''b.JPG'', ''c.gif'']
       = [''a.png'', ''b.JPG'']"
    by code_simp
  have e: "fst (process_each demo_platform demo_self (1 / 8) ''bottom-right'' 128 [''a.png'', ''b.JPG''] demo_world)
       = [Some ''out/a.png'', None]"
    by code_simp
  from process_directory_counts [OF l, of "1 / 8" "''bottom-right''" 128] l f e
  show ?thesis by (simp add: split_def)
qed

section \<open>Rounding to a floating-point format\<close>

text \<open>
  The rounding has a relative error of at most \<open>2\<^sup>-\<^sup>p\<close>, keeps the sign, and is exact on
  the integers below \<open>2\<^sup>p\<close>. Truncating a value that approximates a quotient \<open>X / d\<close>
  closely enough gives \<open>X div d\<close>, or one less when the quotient is an integer.
\<close>

lemma round_half_even_error: "\<bar>of_int (round_half_even z) - z\<bar> \<le> 1 / 2"
proof -
  have "of_int \<lfloor>z\<rfloor> \<le> z" "z < of_int \<lfloor>z\<rfloor> + 1"
    by linarith+
  then show ?thesis
    by (auto simp: round_half_even_def Let_def abs_le_iff)
qed

lemma round_half_even_nonneg: "0 \<le> z \<Longrightarrow> 0 \<le> round_half_even z"
  by (auto simp: round_half_even_def Let_def)

lemma float_exponent_le:
  assumes "x \<noteq> 0"
  shows "2 powi float_exponent x \<le> \<bar>x\<bar>"
proof -
  obtain a b where q: "quotient_of \<bar>x\<bar> = (a, b)"
    by (cases "quotient_of \<bar>x\<bar>")
  have b: "0 < b" using quotient_of_denom_pos [OF q] .
  have x: "\<bar>x\<bar> = of_int a / of_int b" using quotient_of_div [OF q] .
  have a: "0 < a"
  proof -
    have "0 < \<bar>x\<bar>" using assms by simp
    with x b show ?thesis by (simp add: zero_less_divide_iff)
  qed
  let ?k = "bitlen a - bitlen b"
  show ?thesis
  proof (cases "2 powi ?k \<le> \<bar>x\<bar>")
    case True
    then show ?thesis by (simp add: float_exponent_def q)
  next
    case False
    have la: "(2::int) ^ nat (bitlen a - 1) \<le> a" and lb: "b < 2 ^ nat (bitlen b)"
      using bitlen_bounds [OF a] bitlen_bounds [OF b] by simp_all
    have pa: "0 < bitlen a" and pb: "0 < bitlen b"
      using a b bitlen_nonneg [of a] bitlen_nonneg [of b]
        bitlen_eq_zero_iff [of a] bitlen_eq_zero_iff [of b] by linarith+
    have "(2::rat) powi (?k - 1) = 2 powi (bitlen a - 1) / 2 powi (bitlen b)"
      by (simp add: power_int_diff)
    also have "\<dots> = 2 ^ nat (bitlen a - 1) / 2 ^ nat (bitlen b)"
      using pa pb by (simp add: power_int_def)
    also have "\<dots> \<le> of_int a / of_int b"
    proof (rule frac_le)
      show "(2::rat) ^ nat (bitlen a - 1) \<le> of_int a"
        using la by (metis of_int_le_iff of_int_numeral of_int_power)
      show "(of_int b :: rat) \<le> 2 ^ nat (bitlen b)"
        using lb by (metis less_imp_le of_int_le_iff of_int_numeral of_int_power)
      show "(0::rat) < of_int b" using b by simp
      show "(0::rat) \<le> of_int a" using a by simp
    qed
    finally have "(2::rat) powi (?k - 1) \<le> \<bar>x\<bar>"
      unfolding x .
    moreover have "float_exponent x = ?k - 1"
      using False by (simp add: float_exponent_def q)
    ultimately show ?thesis by simp
  qed
qed

lemma float_round_error:
  assumes "0 < p"
  shows "\<bar>float_round p x - x\<bar> \<le> \<bar>x\<bar> / 2 ^ p"
proof (cases "x = 0")
  case True
  then show ?thesis by (simp add: float_round_def)
next
  case False
  let ?e = "float_exponent x"
  let ?s = "(2::rat) powi (?e - (int p - 1))"
  have s: "0 < ?s" by simp
  have "float_round p x - x = (of_int (round_half_even (x / ?s)) - x / ?s) * ?s"
    using False s by (simp add: float_round_def Let_def field_simps)
  then have "\<bar>float_round p x - x\<bar> = \<bar>of_int (round_half_even (x / ?s)) - x / ?s\<bar> * ?s"
    using s by (simp add: abs_mult)
  also have "\<dots> \<le> 1 / 2 * ?s"
    using round_half_even_error [of "x / ?s"] s by (intro mult_right_mono) simp_all
  also have "\<dots> = 2 powi ?e / 2 ^ p"
  proof -
    have "?e - (int p - 1) = (?e - int p) + 1" by simp
    then have "?s = 2 powi ((?e - int p) + 1)" by (simp only:)
    also have "\<dots> = 2 powi (?e - int p) * 2"
      by (subst power_int_add) simp_all
    finally have "?s = 2 powi (?e - int p) * 2" .
    also have "(2::rat) powi (?e - int p) = 2 powi ?e / 2 powi (int p)"
      by (simp add: power_int_diff)
    finally show ?thesis by simp
  qed
  also have "\<dots> \<le> \<bar>x\<bar> / 2 ^ p"
    using float_exponent_le [OF False] by (simp add: divide_right_mono)
  finally show ?thesis .
qed

lemma float_round_nonneg: "0 \<le> x \<Longrightarrow> 0 \<le> float_round p x"
  by (auto simp: float_round_def Let_def intro!: mult_nonneg_nonneg round_half_even_nonneg divide_nonneg_pos)

lemma floor_of_approx:
  fixes y :: rat and X d :: int
  assumes "0 \<le> X" and "0 < d" and "0 \<le> eps" and "eps * of_int X < 1"
    and "\<bar>y - of_int X / of_int d\<bar> \<le> eps * (of_int X / of_int d)"
  shows "\<lfloor>y\<rfloor> = X div d \<or> (d dvd X \<and> \<lfloor>y\<rfloor> = X div d - 1)"
proof -
  let ?n = "X div d" and ?r = "X mod d"
  have "X = ?n * d + ?r" by simp
  then have "(of_int X :: rat) = of_int (?n * d + ?r)" by (simp only:)
  then have X: "(of_int X :: rat) = of_int ?n * of_int d + of_int ?r"
    by (simp only: of_int_add of_int_mult)
  have d: "(0::rat) < of_int d" using assms(2) by simp
  have x: "(of_int X :: rat) / of_int d = of_int ?n + of_int ?r / of_int d"
    using d by (simp add: X add_divide_distrib)
  have r: "0 \<le> ?r" "?r \<le> d - 1"
    using assms(2) pos_mod_bound [of d X] by simp_all
  have e: "eps * (of_int X / of_int d) < 1 / of_int d"
    using assms(4) d by (simp add: divide_strict_right_mono)
  have e0: "0 \<le> eps * (of_int X / of_int d)"
    using assms(1,3) d by simp
  have up: "y \<le> of_int X / of_int d + eps * (of_int X / of_int d)"
    and lo: "of_int X / of_int d - eps * (of_int X / of_int d) \<le> y"
    using assms(5) by (simp_all add: abs_le_iff)
  have "(of_int ?r :: rat) \<le> of_int (d - 1)"
    using r(2) by (simp only: of_int_le_iff)
  then have "(of_int ?r :: rat) \<le> of_int d - 1"
    by simp
  then have "of_int ?r / of_int d \<le> (of_int d - 1) / (of_int d :: rat)"
    using d by (intro divide_right_mono) simp_all
  also have "\<dots> = 1 - 1 / of_int d"
    using d by (simp add: diff_divide_distrib)
  finally have rd: "of_int ?r / of_int d \<le> 1 - 1 / (of_int d :: rat)" .
  have "y < of_int ?n + 1"
    using up e rd x by linarith
  then have le: "\<lfloor>y\<rfloor> \<le> ?n"
    by (simp add: floor_less_iff flip: zle_add1_eq_le)
  show ?thesis
  proof (cases "?r = 0")
    case True
    then have dv: "d dvd X" by (simp add: dvd_eq_mod_eq_0)
    have "1 / of_int d \<le> (1::rat)" using assms(2) by simp
    with lo e x True have "of_int ?n - 1 < y" by simp
    then have "of_int (?n - 1) \<le> y" by simp
    then have "?n - 1 \<le> \<lfloor>y\<rfloor>"
      by (simp only: le_floor_iff)
    with le dv show ?thesis by linarith
  next
    case False
    with r(1) have "1 \<le> ?r" by linarith
    then have "(of_int 1 :: rat) \<le> of_int ?r"
      by (simp only: of_int_le_iff)
    then have "(1 :: rat) \<le> of_int ?r"
      by simp
    then have "1 / of_int d \<le> of_int ?r / (of_int d :: rat)"
      using d by (intro divide_right_mono) simp_all
    with lo e x have "of_int ?n \<le> y" by linarith
    then have "?n \<le> \<lfloor>y\<rfloor>" by (simp add: le_floor_iff)
    with le show ?thesis by simp
  qed
qed

lemma float_round_bounds:
  assumes "0 < p" and "0 \<le> x"
  shows "(1 - 1 / 2 ^ p) * x \<le> float_round p x" and "float_round p x \<le> (1 + 1 / 2 ^ p) * x"
  using float_round_error [OF assms(1), of x] assms(2)
  by (simp_all add: abs_le_iff algebra_simps)

lemma approx_round:
  assumes "0 < p" and "0 \<le> l" and "0 \<le> x" and "l * x \<le> f" and "f \<le> h * x"
  shows "(1 - 1 / 2 ^ p) * l * x \<le> float_round p f" and "float_round p f \<le> (1 + 1 / 2 ^ p) * h * x"
proof -
  have f: "0 \<le> f" using assms(2,3,4) by (meson mult_nonneg_nonneg order_trans)
  have u: "(0::rat) \<le> 1 - 1 / 2 ^ p"
    by (simp add: divide_le_eq_1 self_le_power)
  have "(1 - 1 / 2 ^ p) * (l * x) \<le> (1 - 1 / 2 ^ p) * f"
    using u assms(4) by (rule mult_left_mono [rotated])
  also have "\<dots> \<le> float_round p f"
    using float_round_bounds(1) [OF assms(1) f] .
  finally show "(1 - 1 / 2 ^ p) * l * x \<le> float_round p f"
    by (simp add: mult.assoc)
  have "float_round p f \<le> (1 + 1 / 2 ^ p) * f"
    using float_round_bounds(2) [OF assms(1) f] .
  also have "\<dots> \<le> (1 + 1 / 2 ^ p) * (h * x)"
    using assms(5) by (intro mult_left_mono) simp_all
  finally show "float_round p f \<le> (1 + 1 / 2 ^ p) * h * x"
    by (simp add: mult.assoc)
qed

lemma approx_mult:
  fixes a b f g :: rat
  assumes "0 \<le> a" and "0 \<le> b" and "0 \<le> l1" and "0 \<le> l2"
    and "l1 * a \<le> f" and "f \<le> h1 * a" and "l2 * b \<le> g" and "g \<le> h2 * b"
  shows "l1 * l2 * (a * b) \<le> f * g" and "f * g \<le> h1 * h2 * (a * b)"
proof -
  have f: "0 \<le> f" using assms(1,3,5) by (meson mult_nonneg_nonneg order_trans)
  have g: "0 \<le> g" using assms(2,4,7) by (meson mult_nonneg_nonneg order_trans)
  have "(l1 * a) * (l2 * b) \<le> f * g"
    using assms f g by (intro mult_mono) simp_all
  then show "l1 * l2 * (a * b) \<le> f * g" by (simp add: mult_ac)
  have "f * g \<le> (h1 * a) * (h2 * b)"
    using assms f g by (intro mult_mono) (auto intro: order_trans)
  then show "f * g \<le> h1 * h2 * (a * b)" by (simp add: mult_ac)
qed

lemma scaled_height:
  assumes "0 \<le> h" and "0 \<le> nw" and "0 < w" and "h * nw < 2 ^ 51"
  shows "0 \<le> float_mul (py_float h) (truediv nw w)"
    and "py_int (float_mul (py_float h) (truediv nw w)) = h * nw div w
         \<or> (w dvd h * nw \<and> py_int (float_mul (py_float h) (truediv nw w)) = h * nw div w - 1)"
proof -
  let ?u = "(1::rat) / 2 ^ 53"
  let ?q = "(of_int nw :: rat) / of_int w"
  let ?y = "float_mul (py_float h) (truediv nw w)"
  have q: "0 \<le> ?q" using assms(2,3) by simp
  have h: "(0::rat) \<le> of_int h" using assms(1) by simp
  have f0: "(1 - ?u) * of_int h \<le> py_float h" "py_float h \<le> (1 + ?u) * of_int h"
    unfolding py_float_def using float_round_bounds [of 53 "of_int h"] h by simp_all
  have f1: "(1 - ?u) * ?q \<le> truediv nw w" "truediv nw w \<le> (1 + ?u) * ?q"
    unfolding truediv_def using float_round_bounds [of 53 ?q] q by simp_all
  have pr: "(1 - ?u) * (1 - ?u) * (of_int h * ?q) \<le> py_float h * truediv nw w"
           "py_float h * truediv nw w \<le> (1 + ?u) * (1 + ?u) * (of_int h * ?q)"
    using approx_mult [OF h q _ _ f0 f1] by simp_all
  have x0: "(0::rat) \<le> of_int h * ?q" using h q by (rule mult_nonneg_nonneg)
  have y: "(1 - ?u) * ((1 - ?u) * (1 - ?u)) * (of_int h * ?q) \<le> ?y"
          "?y \<le> (1 + ?u) * ((1 + ?u) * (1 + ?u)) * (of_int h * ?q)"
    unfolding float_mul_def
    using approx_round [of 53 "(1 - ?u) * (1 - ?u)" "of_int h * ?q" "py_float h * truediv nw w" "(1 + ?u) * (1 + ?u)", OF _ _ x0 pr]
    by simp_all
  have x: "of_int h * ?q = (of_int (h * nw) :: rat) / of_int w" by simp
  have c1: "(1 + ?u) * ((1 + ?u) * (1 + ?u)) \<le> 1 + 1 / 2 ^ 51" by simp
  have c2: "1 - 1 / 2 ^ 51 \<le> (1 - ?u) * ((1 - ?u) * (1 - ?u))" by simp
  have "(1 - 1 / 2 ^ 51) * (of_int h * ?q) \<le> ?y"
    using y(1) c2 x0 by (meson mult_right_mono order_trans)
  moreover have "?y \<le> (1 + 1 / 2 ^ 51) * (of_int h * ?q)"
    using y(2) c1 x0 by (meson mult_right_mono order_trans)
  ultimately have a: "\<bar>?y - of_int (h * nw) / of_int w\<bar> \<le> (1 / 2 ^ 51) * (of_int (h * nw) / of_int w)"
    unfolding x by (simp add: abs_le_iff algebra_simps)
  have X: "0 \<le> h * nw" using assms(1,2) by simp
  have e: "(1 / 2 ^ 51) * (of_int (h * nw) :: rat) < 1"
  proof -
    have "(of_int (h * nw) :: rat) < of_int (2 ^ 51)"
      using assms(4) by (simp only: of_int_less_iff)
    then show ?thesis by simp
  qed
  show nn: "0 \<le> ?y"
    unfolding float_mul_def
    using assms(1) q
    by (intro float_round_nonneg mult_nonneg_nonneg) (simp_all add: py_float_def truediv_def float_round_nonneg)
  have "py_int ?y = \<lfloor>?y\<rfloor>" using nn by (simp add: py_int_def)
  with floor_of_approx [OF X assms(3) _ e a] show "py_int ?y = h * nw div w
         \<or> (w dvd h * nw \<and> py_int ?y = h * nw div w - 1)"
    by simp
qed

lemma float_exponent_less:
  assumes "x \<noteq> 0" and "\<bar>x\<bar> < 2 ^ p"
  shows "float_exponent x < int p"
proof (rule ccontr)
  assume "\<not> float_exponent x < int p"
  then have "int p \<le> float_exponent x" by simp
  then have "(2::rat) powi (int p) \<le> 2 powi float_exponent x"
    by (intro power_int_increasing) simp_all
  also have "\<dots> \<le> \<bar>x\<bar>" using float_exponent_le [OF assms(1)] .
  finally show False using assms(2) by simp
qed

lemma round_half_even_of_int: "round_half_even (of_int n) = n"
  by (simp add: round_half_even_def)

lemma float_round_of_int:
  assumes "\<bar>n\<bar> < 2 ^ p" and "0 < p"
  shows "float_round p (of_int n) = of_int n"
proof (cases "n = 0")
  case True
  then show ?thesis by (simp add: float_round_def)
next
  case False
  let ?x = "of_int n :: rat"
  have x: "?x \<noteq> 0" using False by simp
  have "\<bar>?x\<bar> < 2 ^ p"
  proof -
    have "\<bar>?x\<bar> = of_int \<bar>n\<bar>" by simp
    also have "\<dots> < of_int (2 ^ p)" using assms(1) by (simp only: of_int_less_iff)
    finally show ?thesis by simp
  qed
  from float_exponent_less [OF x this] have e: "float_exponent ?x \<le> int p - 1" by simp
  define k where "k = nat (int p - 1 - float_exponent ?x)"
  have k: "float_exponent ?x - (int p - 1) = - int k" using e by (simp add: k_def)
  have s: "(2::rat) powi (float_exponent ?x - (int p - 1)) = 1 / 2 ^ k"
    unfolding k by (simp add: power_int_minus field_simps)
  have "?x / (1 / 2 ^ k) = of_int (n * 2 ^ k)" by simp
  then have "round_half_even (?x / (1 / 2 ^ k)) = n * 2 ^ k"
    by (simp only: round_half_even_of_int)
  then show ?thesis
    using x by (simp add: float_round_def Let_def s)
qed

lemma py_float_exact: "\<bar>n\<bar> < 2 ^ 53 \<Longrightarrow> py_float n = of_int n"
  by (simp add: py_float_def float_round_of_int)

lemma abs_from_bounds:
  fixes x y e :: rat
  shows "(1 - e) * x \<le> y \<Longrightarrow> y \<le> (1 + e) * x \<Longrightarrow> \<bar>y - x\<bar> \<le> e * x"
  by (simp add: abs_le_iff algebra_simps)

lemma blend_black_scaling:
  assumes "0 \<le> t" and "t \<le> 255" and "v \<le> 255"
  shows "int (blend_black (truediv t 255) v) = int v * t div 255
         \<or> (255 dvd int v * t \<and> int (blend_black (truediv t 255) v) = int v * t div 255 - 1)"
proof -
  let ?u = "(1::rat) / 2 ^ 53" and ?u' = "(1::rat) / 2 ^ 24"
  let ?q = "(of_int t :: rat) / of_int 255"
  let ?f = "float_round 24 (truediv t 255)"
  let ?temp = "float_round 24 (?f * of_nat v)"
  have q: "0 \<le> ?q" using assms(1) by simp
  have v: "(0::rat) \<le> of_nat v" by simp
  have f1: "(1 - ?u) * ?q \<le> truediv t 255" "truediv t 255 \<le> (1 + ?u) * ?q"
    unfolding truediv_def using float_round_bounds [of 53 ?q] q by simp_all
  have f2: "(1 - ?u') * (1 - ?u) * ?q \<le> ?f" "?f \<le> (1 + ?u') * (1 + ?u) * ?q"
    using approx_round [of 24 "1 - ?u" ?q "truediv t 255" "1 + ?u", OF _ _ q f1] by simp_all
  have v1: "1 * of_nat v \<le> (of_nat v :: rat)" "(of_nat v :: rat) \<le> 1 * of_nat v" by simp_all
  have pr: "(1 - ?u') * (1 - ?u) * 1 * (?q * of_nat v) \<le> ?f * of_nat v"
           "?f * of_nat v \<le> (1 + ?u') * (1 + ?u) * 1 * (?q * of_nat v)"
    using approx_mult [OF q v _ _ f2 v1] by simp_all
  have x0: "(0::rat) \<le> ?q * of_nat v" using q v by (rule mult_nonneg_nonneg)
  have y: "(1 - ?u') * ((1 - ?u') * (1 - ?u) * 1) * (?q * of_nat v) \<le> ?temp"
          "?temp \<le> (1 + ?u') * ((1 + ?u') * (1 + ?u) * 1) * (?q * of_nat v)"
    using approx_round [of 24 "(1 - ?u') * (1 - ?u) * 1" "?q * of_nat v" "?f * of_nat v" "(1 + ?u') * (1 + ?u) * 1", OF _ _ x0 pr]
    by simp_all
  have x: "?q * of_nat v = (of_int (int v * t) :: rat) / of_int 255" by simp
  have c1: "(1 + ?u') * ((1 + ?u') * (1 + ?u) * 1) \<le> 1 + 1 / 2 ^ 22" by simp
  have c2: "1 - 1 / 2 ^ 22 \<le> (1 - ?u') * ((1 - ?u') * (1 - ?u) * 1)" by simp
  have "(1 - 1 / 2 ^ 22) * (?q * of_nat v) \<le> ?temp"
    using y(1) c2 x0 by (meson mult_right_mono order_trans)
  moreover have "?temp \<le> (1 + 1 / 2 ^ 22) * (?q * of_nat v)"
    using y(2) c1 x0 by (meson mult_right_mono order_trans)
  ultimately have "\<bar>?temp - ?q * of_nat v\<bar> \<le> (1 / 2 ^ 22) * (?q * of_nat v)"
    by (rule abs_from_bounds)
  then have a: "\<bar>?temp - of_int (int v * t) / of_int 255\<bar>
        \<le> (1 / 2 ^ 22) * (of_int (int v * t) / of_int 255)"
    unfolding x .
  have X: "0 \<le> int v * t" using assms(1) by simp
  have Xle: "int v * t \<le> 255 * 255"
    using assms by (intro mult_mono) simp_all
  have e: "(1 / 2 ^ 22) * (of_int (int v * t) :: rat) < 1"
  proof -
    have "(of_int (int v * t) :: rat) \<le> of_int (255 * 255)"
      using Xle by (simp only: of_int_le_iff)
    then show ?thesis by simp
  qed
  have fl: "\<lfloor>?temp\<rfloor> = int v * t div 255 \<or> (255 dvd int v * t \<and> \<lfloor>?temp\<rfloor> = int v * t div 255 - 1)"
    using floor_of_approx [OF X _ _ e a] by simp
  have d: "int v * t div 255 \<le> 255" using Xle by simp
  have "0 \<le> truediv t 255"
    unfolding truediv_def using q by (rule float_round_nonneg)
  then have "0 \<le> ?f"
    by (rule float_round_nonneg)
  then have "0 \<le> ?f * of_nat v"
    using v by (rule mult_nonneg_nonneg)
  then have nn: "0 \<le> ?temp"
    by (rule float_round_nonneg)
  have "int (blend_black (truediv t 255) v) = \<lfloor>?temp\<rfloor>"
  proof (cases "?temp \<le> 0")
    case True
    with nn have "?temp = 0" by simp
    then show ?thesis by (simp add: blend_black_def)
  next
    case False
    note pos = this
    show ?thesis
    proof (cases "255 \<le> ?temp")
      case True
      then have "255 \<le> \<lfloor>?temp\<rfloor>" by (simp add: le_floor_iff)
      with fl d have "\<lfloor>?temp\<rfloor> = 255" by linarith
      with True pos show ?thesis by (simp add: blend_black_def Let_def)
    next
      case False
      have "0 \<le> \<lfloor>?temp\<rfloor>" using nn by simp
      with False pos show ?thesis by (simp add: blend_black_def Let_def)
    qed
  qed
  with fl show ?thesis by simp
qed

section \<open>Resizing the watermark\<close>

lemma image_resize_ok:
  assumes "load_error r w = None" and "1 \<le> fst sz" and "fst sz < 2 ^ 31"
    and "1 \<le> snd sz" and "snd sz < 2 ^ 31" and "\<not> out_of_memory E (heap w) sz"
  shows "\<exists>im. image_resize E r sz w = (Inr (length (heap w)), w\<lparr>heap := heap w @ [im]\<rparr>)
              \<and> im_size im = sz \<and> mode im = mode (heap w ! r)"
  using assms
  by (cases sz)
     (auto simp: image_resize_def image_new_error_def c_int_def alloc_def Let_def im_size_def
        set_raster_def)

lemma float_exponent_gt:
  assumes "x \<noteq> 0"
  shows "\<bar>x\<bar> < 2 powi (float_exponent x + 1)"
proof -
  obtain a b where q: "quotient_of \<bar>x\<bar> = (a, b)"
    by (cases "quotient_of \<bar>x\<bar>")
  have b: "0 < b" using quotient_of_denom_pos [OF q] .
  have x: "\<bar>x\<bar> = of_int a / of_int b" using quotient_of_div [OF q] .
  have a: "0 < a"
  proof -
    have "0 < \<bar>x\<bar>" using assms by simp
    with x b show ?thesis by (simp add: zero_less_divide_iff)
  qed
  let ?k = "bitlen a - bitlen b"
  show ?thesis
  proof (cases "2 powi ?k \<le> \<bar>x\<bar>")
    case False
    then have "float_exponent x = ?k - 1"
      by (simp add: float_exponent_def q)
    with False show ?thesis by simp
  next
    case True
    have la: "a < (2::int) ^ nat (bitlen a)" and lb: "(2::int) ^ nat (bitlen b - 1) \<le> b"
      using bitlen_bounds [OF a] bitlen_bounds [OF b] by simp_all
    have pa: "0 < bitlen a" and pb: "0 < bitlen b"
      using a b bitlen_nonneg [of a] bitlen_nonneg [of b]
        bitlen_eq_zero_iff [of a] bitlen_eq_zero_iff [of b] by linarith+
    have "(of_int a :: rat) / of_int b < 2 ^ nat (bitlen a) / 2 ^ nat (bitlen b - 1)"
    proof (rule frac_less)
      show "(of_int a :: rat) < 2 ^ nat (bitlen a)"
        using la by (metis of_int_less_iff of_int_numeral of_int_power)
      show "(2::rat) ^ nat (bitlen b - 1) \<le> of_int b"
        using lb by (metis of_int_le_iff of_int_numeral of_int_power)
      show "(0::rat) \<le> of_int a" using a by simp
      show "(0::rat) < 2 ^ nat (bitlen b - 1)" by simp
    qed
    also have "\<dots> = 2 powi (bitlen a) / 2 powi (bitlen b - 1)"
      using pa pb by (simp add: power_int_def)
    also have "\<dots> = 2 powi (?k + 1)"
    proof -
      have "?k + 1 = bitlen a - (bitlen b - 1)" by simp
      then have "(2::rat) powi (?k + 1) = 2 powi (bitlen a - (bitlen b - 1))"
        by (simp only:)
      also have "\<dots> = 2 powi (bitlen a) / 2 powi (bitlen b - 1)"
        by (rule power_int_diff) simp
      finally show ?thesis by simp
    qed
    finally have "\<bar>x\<bar> < 2 powi (?k + 1)" unfolding x .
    moreover have "float_exponent x = ?k"
      using True by (simp add: float_exponent_def q)
    ultimately show ?thesis by simp
  qed
qed

lemma float_overflow_iff: "float_overflow x \<longleftrightarrow> 2 ^ 1024 \<le> \<bar>float_round 53 x\<bar>"
proof (cases "float_round 53 x = 0")
  case True
  then show ?thesis by (simp add: float_overflow_def)
next
  case False
  let ?y = "float_round 53 x"
  show ?thesis
  proof
    assume "float_overflow x"
    then have "1024 \<le> float_exponent ?y" by (simp add: float_overflow_def)
    then have "(2::rat) powi 1024 \<le> 2 powi float_exponent ?y"
      by (intro power_int_increasing) simp_all
    also have "\<dots> \<le> \<bar>?y\<bar>" using float_exponent_le [OF False] .
    finally show "2 ^ 1024 \<le> \<bar>?y\<bar>" by simp
  next
    assume "2 ^ 1024 \<le> \<bar>?y\<bar>"
    then have "(2::rat) powi 1024 \<le> \<bar>?y\<bar>" by simp
    also have "\<dots> < 2 powi (float_exponent ?y + 1)"
      using float_exponent_gt [OF False] .
    finally have lt: "(2::rat) powi 1024 < 2 powi (float_exponent ?y + 1)" .
    have "(1024::int) < float_exponent ?y + 1"
    proof (rule ccontr)
      assume "\<not> (1024::int) < float_exponent ?y + 1"
      then have "float_exponent ?y + 1 \<le> 1024" by simp
      then have "(2::rat) powi (float_exponent ?y + 1) \<le> 2 powi 1024"
        by (intro power_int_increasing) simp_all
      with lt show False by simp
    qed
    then show "float_overflow x" using False by (simp add: float_overflow_def)
  qed
qed

lemma no_overflow_small:
  assumes "\<bar>float_round 53 x\<bar> < 2 ^ 31"
  shows "\<not> float_overflow x"
proof -
  have "(2::rat) ^ 31 \<le> 2 ^ 1024" by (rule power_increasing) simp_all
  with assms show ?thesis unfolding float_overflow_iff by linarith
qed

lemma py_int_small:
  assumes "0 \<le> y" and "py_int y < 2 ^ 31"
  shows "\<bar>y\<bar> < 2 ^ 31"
proof -
  have "\<lfloor>y\<rfloor> < 2 ^ 31" using assms by (simp add: py_int_def)
  then have "y < of_int (2 ^ 31)" by (simp only: floor_less_iff)
  with assms(1) show ?thesis by simp
qed

lemma of_int_div_bounds:
  fixes a b :: int
  assumes "0 < b"
  shows "(of_int (a div b) :: rat) \<le> of_int a / of_int b"
    and "(of_int a :: rat) / of_int b - 1 < of_int (a div b)"
proof -
  have f: "a div b = \<lfloor>(of_int a :: rat) / of_int b\<rfloor>"
    by (simp add: floor_divide_of_int_eq)
  show "(of_int (a div b) :: rat) \<le> of_int a / of_int b"
    unfolding f by (rule of_int_floor_le)
  show "(of_int a :: rat) / of_int b - 1 < of_int (a div b)"
    unfolding f by linarith
qed

lemma of_int_div_exact:
  fixes a b :: int
  assumes "b dvd a" and "b \<noteq> 0"
  shows "(of_int (a div b) :: rat) = of_int a / of_int b"
proof -
  from assms(1) obtain k where k: "a = b * k" ..
  with assms(2) show ?thesis by simp
qed

text \<open>
  C1, as stated, fails on the height: \<^verbatim>\<open>int(...)\<close> truncates. For the 150 x 50 template, a
  base image 1000 pixels wide and scale 0.125 the new width is 125 and the code returns
  an image of height 41, where \<open>round(50 \<times> 125 / 150)\<close> is 42.
\<close>

theorem resize_watermark_truncates:
  "fst (resize_watermark demo_platform 0 1 (1 / 8) demo_world) = Inr 2
   \<and> im_size (heap (snd (resize_watermark demo_platform 0 1 (1 / 8) demo_world)) ! 2) = (125, 41)
   \<and> claimed_height (height (heap demo_world ! 0)) 125 (width (heap demo_world ! 0)) = 42"
  by code_simp

text \<open>
  C1 (amended): for a base image and a watermark that decodes, of positive width, with
  dimensions that are C ints (below \<open>2\<^sup>3\<^sup>1\<close>), and scale > 0, \<^verbatim>\<open>resize_watermark\<close> computes
  the width \<open>int(baseW * scale)\<close>, the floor of the product rounded to a double, and the
  height \<open>int(wmH * (newWidth / wmW))\<close>, truncated and not rounded. When both lie
  between 1 and \<open>2\<^sup>3\<^sup>1 - 1\<close> and the memory for the result is available (PIL raises
  for another size, unless the size is the watermark's own, and when memory is
  missing), it returns a new image of that width and height. When moreover
  \<open>wmH \<times> newWidth < 2\<^sup>5\<^sup>1\<close>, the height is \<open>floor(wmH \<times> newWidth / wmW)\<close>, or one less
  when that quotient is an integer that the double arithmetic misses; so it lies within
  one pixel below the exact proportional height, and the resized height/width ratio
  differs from the original ratio by at most \<open>1 / newWidth\<close>.
\<close>

theorem resize_watermark_size:
  fixes E :: platform and wm base :: nat and scale :: rat and w :: world
  defines "bw \<equiv> width (heap w ! base)" and "ww \<equiv> width (heap w ! wm)"
    and "wh \<equiv> height (heap w ! wm)"
  defines "new_width \<equiv> py_int (float_mul (py_float bw) scale)"
  defines "new_height \<equiv> py_int (float_mul (py_float wh) (truediv new_width ww))"
  assumes "decode_error w wm = None"
    and "0 < ww" and "0 \<le> wh" and "wh < 2 ^ 31" and "0 \<le> bw" and "bw < 2 ^ 31"
    and "0 < scale"
    and "1 \<le> new_width" and "new_width < 2 ^ 31"
    and "1 \<le> new_height" and "new_height < 2 ^ 31"
    and "\<not> out_of_memory E (heap w) (new_width, new_height)"
  shows "(\<exists>im. resize_watermark E wm base scale w
                 = (Inr (length (heap w)), w\<lparr>heap := heap w @ [im]\<rparr>)
               \<and> im_size im = (new_width, new_height) \<and> mode im = mode (heap w ! wm))
         \<and> new_width = \<lfloor>float_round 53 (of_int bw * scale)\<rfloor>
         \<and> of_int new_width \<le> (1 + 1 / 2 ^ 53) * (of_int bw * scale)
         \<and> (1 - 1 / 2 ^ 53) * (of_int bw * scale) - 1 < of_int new_width
         \<and> (wh * new_width < 2 ^ 51 \<longrightarrow>
              (new_height = wh * new_width div ww
                 \<or> (ww dvd wh * new_width \<and> new_height = wh * new_width div ww - 1))
              \<and> of_int new_height \<le> (of_int wh * of_int new_width / of_int ww :: rat)
              \<and> (of_int wh * of_int new_width / of_int ww :: rat) - 1 \<le> of_int new_height
              \<and> \<bar>(of_int new_height :: rat) / of_int new_width - of_int wh / of_int ww\<bar>
                  \<le> 1 / of_int new_width)"
proof -
  have ex: "py_float bw = of_int bw"
    using assms(10,11) by (intro py_float_exact) simp
  have exh: "py_float wh = of_int wh"
    using assms(8,9) by (intro py_float_exact) simp
  have p: "(0::rat) \<le> of_int bw * scale"
    using assms(10,12) by simp
  have nw0: "0 \<le> new_width" using assms(13) by simp
  have q: "(0::rat) \<le> of_int new_width / of_int ww"
    using nw0 assms(7) by simp
  have o1: "\<not> float_overflow (of_int bw)"
  proof (rule no_overflow_small)
    have "float_round 53 (of_int bw) = of_int bw"
      using ex by (simp add: py_float_def)
    moreover have "(of_int bw :: rat) < of_int (2 ^ 31)"
      using assms(11) by (simp only: of_int_less_iff)
    moreover have "(0::rat) \<le> of_int bw" using assms(10) by simp
    ultimately show "\<bar>float_round 53 (of_int bw)\<bar> < 2 ^ 31" by simp
  qed
  have o2: "\<not> float_overflow (py_float bw * scale)"
  proof (rule no_overflow_small, rule py_int_small)
    show "0 \<le> float_round 53 (py_float bw * scale)"
      using p by (intro float_round_nonneg) (simp add: ex)
    show "py_int (float_round 53 (py_float bw * scale)) < 2 ^ 31"
      using assms(14) by (simp add: new_width_def float_mul_def)
  qed
  have o3: "truediv_error new_width ww = None"
  proof -
    have "float_round 53 (of_int new_width / of_int ww) \<le> (1 + 1 / 2 ^ 53) * (of_int new_width / of_int ww)"
      using float_round_bounds(2) [of 53, OF _ q] by simp
    also have "\<dots> \<le> 2 * (of_int new_width / of_int ww)"
      using q by (intro mult_right_mono) simp_all
    also have "\<dots> \<le> 2 * of_int new_width"
    proof -
      have "(1::rat) \<le> of_int ww" using assms(7) by simp
      then have "(of_int new_width :: rat) / of_int ww \<le> of_int new_width / 1"
        using nw0 by (intro divide_left_mono) simp_all
      then show ?thesis by simp
    qed
    also have "\<dots> < 2 * 2 ^ 31"
    proof -
      have "(of_int new_width :: rat) < of_int (2 ^ 31)"
        using assms(14) by (simp only: of_int_less_iff)
      then show ?thesis by simp
    qed
    also have "\<dots> \<le> 2 ^ 1024"
    proof -
      have "(2::rat) ^ 32 \<le> 2 ^ 1024" by (rule power_increasing) simp_all
      moreover have "(2::rat) * 2 ^ 31 = 2 ^ 32" by simp
      ultimately show ?thesis by (simp only:)
    qed
    finally have "float_round 53 (of_int new_width / of_int ww) < 2 ^ 1024" .
    moreover have "0 \<le> float_round 53 (of_int new_width / of_int ww)"
      using q by (rule float_round_nonneg)
    ultimately have "\<not> float_overflow (of_int new_width / of_int ww)"
      unfolding float_overflow_iff by simp
    with assms(7) show ?thesis by (simp add: truediv_error_def)
  qed
  have o4: "\<not> float_overflow (of_int wh)"
  proof (rule no_overflow_small)
    have "float_round 53 (of_int wh) = of_int wh"
      using exh by (simp add: py_float_def)
    moreover have "(of_int wh :: rat) < of_int (2 ^ 31)"
      using assms(9) by (simp only: of_int_less_iff)
    moreover have "(0::rat) \<le> of_int wh" using assms(8) by simp
    ultimately show "\<bar>float_round 53 (of_int wh)\<bar> < 2 ^ 31" by simp
  qed
  have t0: "0 \<le> truediv new_width ww"
    unfolding truediv_def using q by (rule float_round_nonneg)
  have o5: "\<not> float_overflow (py_float wh * truediv new_width ww)"
  proof (rule no_overflow_small, rule py_int_small)
    show "0 \<le> float_round 53 (py_float wh * truediv new_width ww)"
      using t0 assms(8) by (intro float_round_nonneg mult_nonneg_nonneg) (simp_all add: exh)
    show "py_int (float_round 53 (py_float wh * truediv new_width ww)) < 2 ^ 31"
      using assms(16) by (simp add: new_height_def float_mul_def)
  qed
  have l: "load_error wm w = None"
    using assms(6) by (simp add: load_error_def)
  have r: "\<exists>im. resize_watermark E wm base scale w
                 = (Inr (length (heap w)), w\<lparr>heap := heap w @ [im]\<rparr>)
               \<and> im_size im = (new_width, new_height) \<and> mode im = mode (heap w ! wm)"
    using image_resize_ok [of wm w "(new_width, new_height)" E, OF l] assms(13-17) o1 o2 o3 o4 o5
    by (simp add: resize_watermark_def Let_def new_width_def new_height_def bw_def ww_def wh_def)
  have nwf: "new_width = \<lfloor>float_round 53 (of_int bw * scale)\<rfloor>"
    using float_round_nonneg [OF p, of 53]
    by (simp add: new_width_def ex float_mul_def py_int_def)
  have wb1: "of_int new_width \<le> (1 + 1 / 2 ^ 53) * (of_int bw * scale)"
  proof -
    have "(of_int new_width :: rat) \<le> float_round 53 (of_int bw * scale)"
      unfolding nwf by (rule of_int_floor_le)
    also have "\<dots> \<le> (1 + 1 / 2 ^ 53) * (of_int bw * scale)"
      using float_round_bounds(2) [of 53, OF _ p] by simp
    finally show ?thesis .
  qed
  have wb2: "(1 - 1 / 2 ^ 53) * (of_int bw * scale) - 1 < of_int new_width"
  proof -
    have "(1 - 1 / 2 ^ 53) * (of_int bw * scale) \<le> float_round 53 (of_int bw * scale)"
      using float_round_bounds(1) [of 53, OF _ p] by simp
    moreover have "float_round 53 (of_int bw * scale) - 1 < (of_int new_width :: rat)"
      unfolding nwf by linarith
    ultimately show ?thesis by linarith
  qed
  have acc: "(new_height = wh * new_width div ww
                 \<or> (ww dvd wh * new_width \<and> new_height = wh * new_width div ww - 1))
              \<and> of_int new_height \<le> (of_int wh * of_int new_width / of_int ww :: rat)
              \<and> (of_int wh * of_int new_width / of_int ww :: rat) - 1 \<le> of_int new_height
              \<and> \<bar>(of_int new_height :: rat) / of_int new_width - of_int wh / of_int ww\<bar>
                  \<le> 1 / of_int new_width"
    if rng: "wh * new_width < 2 ^ 51"
  proof -
    have hd: "new_height = wh * new_width div ww
              \<or> (ww dvd wh * new_width \<and> new_height = wh * new_width div ww - 1)"
      unfolding new_height_def
      using scaled_height(2) [OF assms(8) nw0 assms(7) rng] .
    let ?x = "(of_int (wh * new_width) :: rat) / of_int ww"
    have hb: "of_int new_height \<le> ?x \<and> ?x - 1 \<le> of_int new_height"
    proof (cases "new_height = wh * new_width div ww")
      case True
      with of_int_div_bounds [OF assms(7), of "wh * new_width"] show ?thesis by simp
    next
      case False
      with hd have d: "ww dvd wh * new_width" and e: "new_height = wh * new_width div ww - 1"
        by simp_all
      have "(of_int (wh * new_width div ww) :: rat) = ?x"
        using d assms(7) by (intro of_int_div_exact) simp_all
      then show ?thesis unfolding e by simp
    qed
    have x: "?x = (of_int wh * of_int new_width / of_int ww :: rat)" by simp
    have nwp: "(0::rat) < of_int new_width" using assms(13) by simp
    have ar: "\<bar>(of_int new_height :: rat) / of_int new_width - of_int wh / of_int ww\<bar>
               \<le> 1 / of_int new_width"
    proof -
      have "(of_int new_height :: rat) / of_int new_width - of_int wh / of_int ww
            = (of_int new_height - ?x) / of_int new_width"
        using nwp assms(7) by (simp add: field_simps)
      moreover have "\<bar>of_int new_height - ?x\<bar> \<le> 1"
        using hb by (simp add: abs_le_iff)
      ultimately show ?thesis
        using nwp by (simp add: abs_divide divide_right_mono del: of_int_mult)
    qed
    from hd hb ar show ?thesis unfolding x by blast
  qed
  from r nwf wb1 wb2 acc show ?thesis by blast
qed

theorem resize_watermark_size_witness:
  "decode_error demo_world 0 = None
   \<and> (0::int) < width (heap demo_world ! 0) \<and> (0::int) \<le> height (heap demo_world ! 0)
   \<and> height (heap demo_world ! 0) < 2 ^ 31
   \<and> (0::int) \<le> width (heap demo_world ! 1) \<and> width (heap demo_world ! 1) < 2 ^ 31
   \<and> py_int (float_mul (py_float (width (heap demo_world ! 1))) (1 / 8)) = 125
   \<and> py_int (float_mul (py_float (height (heap demo_world ! 0))) (truediv 125 (width (heap demo_world ! 0)))) = 41
   \<and> \<not> out_of_memory demo_platform (heap demo_world) (125, 41)
   \<and> height (heap demo_world ! 0) * 125 < 2 ^ 51
   \<and> (\<exists>im. resize_watermark demo_platform 0 1 (1 / 8) demo_world
              = (Inr 2, demo_world\<lparr>heap := heap demo_world @ [im]\<rparr>)
            \<and> im_size im = (125, 41) \<and> mode im = ''RGBA'')
   \<and> (41::int) = 50 * 125 div 150
   \<and> \<bar>(41::rat) / 125 - 50 / 150\<bar> \<le> 1 / 125"
proof -
  have d: "width (heap demo_world ! 0) = 150" "height (heap demo_world ! 0) = 50"
    "width (heap demo_world ! 1) = 1000" "mode (heap demo_world ! 0) = ''RGBA''"
    "length (heap demo_world) = 2" "decode_error demo_world 0 = None"
    by (simp_all add: demo_world_def plain_def)
  have m: "\<not> out_of_memory demo_platform (heap demo_world) (125, 41)"
    by (simp add: demo_platform_def)
  have nw: "py_int (float_mul (py_float 1000) (1 / 8)) = 125"
    by code_simp
  have nh: "py_int (float_mul (py_float 50) (truediv 125 150)) = 41"
    by code_simp
  from resize_watermark_size [of demo_world 0 1 "1 / 8" demo_platform] d m nw nh
  show ?thesis by simp
qed

section \<open>Attenuating the alpha band\<close>

lemma blend_black_facts:
  assumes "0 \<le> t" and "t \<le> 255" and "v \<le> 255"
  shows "(of_nat (blend_black (truediv t 255) v) :: rat) \<le> of_nat v * of_int t / 255"
    and "(of_nat v * of_int t / 255 :: rat) - 1 \<le> of_nat (blend_black (truediv t 255) v)"
    and "blend_black (truediv t 255) v \<le> v"
    and "v < 255 \<Longrightarrow> 0 < t \<Longrightarrow> int (blend_black (truediv t 255) v) < t"
proof -
  let ?b = "int (blend_black (truediv t 255) v)"
  let ?X = "int v * t"
  note s = blend_black_scaling [OF assms]
  have le: "?b \<le> ?X div 255" using s by linarith
  have ge: "?X div 255 - 1 \<le> ?b" using s by linarith
  have x: "(of_int ?X :: rat) / of_int 255 = of_nat v * of_int t / 255" by simp
  have "(of_int ?b :: rat) \<le> of_int (?X div 255)"
    using le by (simp only: of_int_le_iff)
  also have "\<dots> \<le> of_int ?X / of_int 255"
    by (rule of_int_div_bounds) simp
  finally show "(of_nat (blend_black (truediv t 255) v) :: rat) \<le> of_nat v * of_int t / 255"
    unfolding x by simp
  have hb: "(of_int ?X :: rat) / of_int 255 - 1 \<le> of_int ?b"
  proof (cases "?b = ?X div 255")
    case True
    with of_int_div_bounds(2) [of 255 ?X] show ?thesis by simp
  next
    case False
    with s have d: "255 dvd ?X" and e: "?b = ?X div 255 - 1" by simp_all
    have "(of_int (?X div 255) :: rat) = of_int ?X / of_int 255"
      using d by (intro of_int_div_exact) simp_all
    then show ?thesis unfolding e by simp
  qed
  then show "(of_nat v * of_int t / 255 :: rat) - 1 \<le> of_nat (blend_black (truediv t 255) v)"
    unfolding x by simp
  have "?X \<le> int v * 255"
    using assms(2) by (intro mult_left_mono) simp_all
  then have "?X div 255 \<le> int v" by simp
  with le show "blend_black (truediv t 255) v \<le> v" by linarith
  show "int (blend_black (truediv t 255) v) < t" if "v < 255" "0 < t"
  proof -
    have "?X \<le> 254 * t" using that assms(1) by (intro mult_right_mono) simp_all
    then have "?X div 255 \<le> 254 * t div 255" by (rule zdiv_mono1) simp
    also have "\<dots> < t" using that(2) by simp
    finally show ?thesis using le by linarith
  qed
qed

lemma adjust_transparency_as_rgba:
  assumes "wm < length (heap w)"
  shows "fst (adjust_transparency E wm t w) = (if mode (heap w ! wm) \<noteq> ''RGBA'' then length (heap w) else wm)"
    and "heap (snd (adjust_transparency E wm t w)) ! fst (adjust_transparency E wm t w)
         = (as_rgba E (heap w ! wm))\<lparr>alpha := brightness_enhance (alpha (as_rgba E (heap w ! wm))) (truediv t 255)\<rparr>"
  using assms
  by (cases "mode (heap w ! wm) = ''RGBA''";
      simp add: adjust_transparency_rgba adjust_transparency_other as_rgba_def)+

text \<open>
  C3: for every watermark image and transparency \<open>t\<close> in 0..255, \<^verbatim>\<open>add_watermark\<close> converts
  the watermark to RGBA unless it is RGBA already, and then replaces the alpha \<open>a\<close> of
  every pixel of that RGBA image by PIL's brightness blend of \<open>a\<close> with the factor
  \<open>t / 255\<close>. For a byte \<open>a\<close> the new alpha lies between \<open>a \<times> t / 255 - 1\<close> and
  \<open>a \<times> t / 255\<close>, so it is a scaling of the pixel's own alpha and no constant; it is at
  most \<open>a\<close>; and for a pixel that was partially transparent (\<open>a < 255\<close>) and \<open>t > 0\<close> it
  is less than \<open>t\<close>.
\<close>

theorem add_watermark_scales_alpha:
  fixes E :: platform and base wm :: nat and pos :: "int \<times> int" and t :: int and w :: world
  defines "wm' \<equiv> (if mode (heap w ! wm) \<noteq> ''RGBA'' then length (heap w) else wm)"
    and "rgba \<equiv> as_rgba E (heap w ! wm)"
    and "w' \<equiv> snd (add_watermark E base wm pos t w)"
  assumes "wm < length (heap w)" and "0 \<le> t" and "t \<le> 255"
  shows "mode rgba = ''RGBA''
         \<and> heap w' ! wm' = rgba\<lparr>alpha := (\<lambda>p. blend_black (truediv t 255) (alpha rgba p))\<rparr>
         \<and> (\<forall>p. alpha rgba p \<le> 255 \<longrightarrow>
               (of_nat (alpha (heap w' ! wm') p) :: rat) \<le> of_nat (alpha rgba p) * of_int t / 255
               \<and> (of_nat (alpha rgba p) * of_int t / 255 :: rat) - 1 \<le> of_nat (alpha (heap w' ! wm') p)
               \<and> alpha (heap w' ! wm') p \<le> alpha rgba p
               \<and> (alpha rgba p < 255 \<and> 0 < t \<longrightarrow> int (alpha (heap w' ! wm') p) < t))"
proof -
  have m: "mode rgba = ''RGBA''"
    by (simp add: rgba_def as_rgba_def)
  have h: "heap w' ! wm' = rgba\<lparr>alpha := (\<lambda>p. blend_black (truediv t 255) (alpha rgba p))\<rparr>"
    using add_watermark_keeps_adjusted [OF assms(4), of E base pos t]
          adjust_transparency_as_rgba [OF assms(4), of E t]
    by (simp add: w'_def wm'_def rgba_def brightness_enhance_def)
  have a: "alpha (heap w' ! wm') p = blend_black (truediv t 255) (alpha rgba p)" for p
    unfolding h by simp
  show ?thesis
    using m h blend_black_facts [OF assms(5,6)] unfolding a by blast
qed

theorem add_watermark_scales_alpha_witness:
  "(0::nat) < length (heap (demo_world\<lparr>heap := [(plain ''RGBA'' 150 50)\<lparr>alpha := (\<lambda>p. 100)\<rparr>, plain ''RGB'' 1000 800]\<rparr>))
   \<and> mode (as_rgba demo_platform ((plain ''RGBA'' 150 50)\<lparr>alpha := (\<lambda>p. 100)\<rparr>)) = ''RGBA''
   \<and> alpha (as_rgba demo_platform ((plain ''RGBA'' 150 50)\<lparr>alpha := (\<lambda>p. 100)\<rparr>)) (3, 4) = 100
   \<and> alpha (heap (snd (add_watermark demo_platform 1 0 (10, 10) 128
        (demo_world\<lparr>heap := [(plain ''RGBA'' 150 50)\<lparr>alpha := (\<lambda>p. 100)\<rparr>, plain ''RGB'' 1000 800]\<rparr>))) ! 0) (3, 4) = 50
   \<and> (50::rat) \<le> 100 * 128 / 255 \<and> (100 * 128 / 255 :: rat) - 1 \<le> 50 \<and> (50::int) < 128"
proof -
  let ?im = "(plain ''RGBA'' 150 50)\<lparr>alpha := (\<lambda>p. 100)\<rparr>"
  let ?w = "demo_world\<lparr>heap := [?im, plain ''RGB'' 1000 800]\<rparr>"
  have d: "(0::nat) < length (heap ?w)" "heap ?w ! 0 = ?im" "mode ?im = ''RGBA''"
    "as_rgba demo_platform ?im = ?im" "alpha ?im (3, 4) = 100"
    by (simp_all add: plain_def as_rgba_def)
  have b: "blend_black (truediv 128 255) 100 = 50"
    by code_simp
  from add_watermark_scales_alpha [of 0 ?w 128 demo_platform 1 "(10, 10)"] d b
  show ?thesis by simp
qed

end
